theory Spec2Isabelle
  imports Complex_Main
begin

section \<open>Python values, errors and strings\<close>

text \<open>
  The layers of \<^verbatim>\<open>layers.py\<close> are glue around TensorFlow 1.x operations. Exceptions
  (Python's and the ones TensorFlow raises when a graph is built or run) are values of
  \<open>error\<close>; a function that can raise returns \<open>error + 'a\<close>. Tensor entries are real
  numbers: the arithmetic of the model is exact, it does not round as float32 does.
\<close>

datatype error =
    AssertionError string
  | KeyError string
  | TypeError
  | ValueError
  | InvalidArgumentError

datatype pyval = PyNone | PyBool bool | PyInt int | PyStr string

text \<open>Python's truth value of an object, as \<^verbatim>\<open>if not name\<close> tests it.\<close>

fun truthy :: "pyval \<Rightarrow> bool" where
  "truthy PyNone = False"
| "truthy (PyBool b) = b"
| "truthy (PyInt i) = (i \<noteq> 0)"
| "truthy (PyStr s) = (s \<noteq> [])"

text \<open>\<^verbatim>\<open>str(n)\<close> of an integer: its decimal digits, with a minus sign when negative.\<close>

definition digit_char :: "nat \<Rightarrow> char" where
  "digit_char d = char_of (48 + d)"

fun str_nat :: "nat \<Rightarrow> string" where
  "str_nat n = (if n < 10 then [digit_char n] else str_nat (n div 10) @ [digit_char (n mod 10)])"

declare str_nat.simps [simp del]

definition str_int :: "int \<Rightarrow> string" where
  "str_int i = (if i < 0 then CHR ''-'' # str_nat (nat (- i)) else str_nat (nat i))"

text \<open>\<^verbatim>\<open>s.lower()\<close> on the ASCII letters a class name is made of.\<close>

definition lower_char :: "char \<Rightarrow> char" where
  "lower_char c =
     (let n = (of_char c :: nat) in if 65 \<le> n \<and> n \<le> 90 then char_of (n + 32) else c)"

definition lower :: "string \<Rightarrow> string" where
  "lower s = map lower_char s"

section \<open>The layer name counter\<close>

text \<open>
  \<^verbatim>\<open>_LAYER_UIDS = {}\<close> is a module global: the dictionary is the state, threaded through
  every function that reads or writes it. \<^verbatim>\<open>get_layer_uid\<close> returns the identifier and
  the updated dictionary.
\<close>

type_synonym uids = "string \<rightharpoonup> int"

definition LAYER_UIDS_initial :: uids where
  "LAYER_UIDS_initial = Map.empty"

definition get_layer_uid :: "string \<Rightarrow> uids \<Rightarrow> int \<times> uids" where
  "get_layer_uid layer_name U =
     (case U layer_name of
        None \<Rightarrow> (1, U(layer_name \<mapsto> 1))
      | Some c \<Rightarrow> (c + 1, U(layer_name \<mapsto> c + 1)))"

text \<open>A run of calls, one per tag of the list, in order: the values returned and the final dictionary.\<close>

fun get_layer_uids :: "string list \<Rightarrow> uids \<Rightarrow> int list \<times> uids" where
  "get_layer_uids [] U = ([], U)"
| "get_layer_uids (t # ts) U =
     (let (n, U') = get_layer_uid t U; (ns, U'') = get_layer_uids ts U' in (n # ns, U''))"

section \<open>Tensors and the TensorFlow operations the layers call\<close>

text \<open>
  A rank-2 tensor is its list of rows together with its number of columns, which a tensor
  with no row still has. TensorFlow tensors are rectangular: \<open>wf_mat\<close>.
\<close>

record mat =
  ncols :: nat
  rws :: "real list list"

abbreviation nrows :: "mat \<Rightarrow> nat" where
  "nrows m \<equiv> length (rws m)"

definition wf_mat :: "mat \<Rightarrow> bool" where
  "wf_mat m = list_all (\<lambda>r. length r = ncols m) (rws m)"

definition shape_of :: "mat \<Rightarrow> nat \<times> nat" where
  "shape_of m = (nrows m, ncols m)"

text \<open>
  A \<^verbatim>\<open>tf.SparseTensor\<close> of rank 2: one index pair and one value per stored entry, and
  the dense shape (rows, columns).
\<close>

record sparse =
  entries :: "((int \<times> int) \<times> real) list"
  dense_shape :: "nat \<times> nat"

datatype operand = Dense mat | Sparse sparse

datatype tensor = Vec "real list" | Mat mat

text \<open>
  \<^verbatim>\<open>tf.matmul\<close> of two dense matrices: the inner dimensions must agree; entry \<open>(i, j)\<close> is
  the sum over \<open>k\<close> of \<open>a[i, k] * b[k, j]\<close>.
\<close>

definition row_times :: "real list \<Rightarrow> mat \<Rightarrow> real list" where
  "row_times r b =
     map (\<lambda>j. sum_list (map (\<lambda>k. r ! k * rws b ! k ! j) [0..<nrows b])) [0..<ncols b]"

definition matmul :: "mat \<Rightarrow> mat \<Rightarrow> error + mat" where
  "matmul a b =
     (if ncols a \<noteq> nrows b then Inl InvalidArgumentError
      else Inr \<lparr> ncols = ncols b, rws = map (\<lambda>r. row_times r b) (rws a) \<rparr>)"

text \<open>
  \<^verbatim>\<open>tf.sparse_tensor_dense_matmul\<close>: the output starts as zeros of shape
  [rows of the sparse operand, columns of \<open>b\<close>]; every stored entry \<open>((i, k), v)\<close> adds
  \<open>v * b[k, :]\<close> to output row \<open>i\<close>. An index outside the dense shape is an error.
\<close>

definition in_shape :: "nat \<times> nat \<Rightarrow> int \<times> int \<Rightarrow> bool" where
  "in_shape sh ix = (0 \<le> fst ix \<and> fst ix < int (fst sh) \<and> 0 \<le> snd ix \<and> snd ix < int (snd sh))"

definition sp_accum :: "mat \<Rightarrow> real list list \<Rightarrow> (int \<times> int) \<times> real \<Rightarrow> real list list" where
  "sp_accum b out e =
     (let i = nat (fst (fst e)); k = nat (snd (fst e)); v = snd e
      in out[i := map2 (+) (out ! i) (map (\<lambda>x. v * x) (rws b ! k))])"

definition sparse_tensor_dense_matmul :: "sparse \<Rightarrow> mat \<Rightarrow> error + mat" where
  "sparse_tensor_dense_matmul sp b =
     (if snd (dense_shape sp) \<noteq> nrows b then Inl InvalidArgumentError
      else if \<not> list_all (\<lambda>e. in_shape (dense_shape sp) (fst e)) (entries sp)
      then Inl InvalidArgumentError
      else Inr \<lparr> ncols = ncols b,
                 rws = foldl (sp_accum b)
                         (replicate (fst (dense_shape sp)) (replicate (ncols b) 0))
                         (entries sp) \<rparr>)"

text \<open>
  \<^verbatim>\<open>dot\<close> of the source. \<^verbatim>\<open>tf.matmul\<close> refuses a SparseTensor and
  \<^verbatim>\<open>tf.sparse_tensor_dense_matmul\<close> refuses a dense first operand (TypeError).
\<close>

definition dot :: "operand \<Rightarrow> mat \<Rightarrow> bool \<Rightarrow> error + mat" where
  "dot x y sparse =
     (if sparse
      then (case x of Sparse sp \<Rightarrow> sparse_tensor_dense_matmul sp y | Dense _ \<Rightarrow> Inl TypeError)
      else (case x of Dense d \<Rightarrow> matmul d y | Sparse _ \<Rightarrow> Inl TypeError))"

text \<open>
  \<^verbatim>\<open>tf.sparse_retain\<close>: \<open>to_retain\<close> has one boolean per stored entry; the entries
  whose boolean is true are kept, in order, and the dense shape is unchanged.
\<close>

definition sparse_retain :: "sparse \<Rightarrow> bool list \<Rightarrow> error + sparse" where
  "sparse_retain x to_retain =
     (if length to_retain \<noteq> length (entries x) then Inl ValueError
      else Inr (x\<lparr> entries := map fst (filter snd (zip (entries x) to_retain)) \<rparr>))"

text \<open>
  \<^verbatim>\<open>sparse_dropout\<close> of the source. \<open>u\<close> is the tensor \<^verbatim>\<open>tf.random_uniform(noise_shape)\<close>
  draws, so \<open>length u\<close> is \<^verbatim>\<open>noise_shape\<close>. \<^verbatim>\<open>tf.cast(_, tf.bool)\<close> of a number is
  true unless the number is zero. A SparseTensor times a scalar multiplies its values.
\<close>

definition sparse_scale :: "sparse \<Rightarrow> real \<Rightarrow> sparse" where
  "sparse_scale x c = x\<lparr> entries := map (\<lambda>e. (fst e, snd e * c)) (entries x) \<rparr>"

definition sparse_dropout :: "sparse \<Rightarrow> real \<Rightarrow> real list \<Rightarrow> error + sparse" where
  "sparse_dropout x keep_prob u =
     (let random_tensor = map (\<lambda>v. keep_prob + v) u;
          dropout_mask = map (\<lambda>r. \<lfloor>r\<rfloor> \<noteq> 0) random_tensor
      in case sparse_retain x dropout_mask of
           Inl e \<Rightarrow> Inl e
         | Inr pre_out \<Rightarrow> Inr (sparse_scale pre_out (1 / keep_prob)))"

text \<open>
  \<^verbatim>\<open>tf.nn.dropout(x, keep_prob)\<close> on a dense tensor: \<open>x\<close> itself when \<open>keep_prob\<close> is 1,
  otherwise \<open>x / keep_prob * floor(keep_prob + u)\<close> entry by entry; \<open>u i j\<close> is the
  uniform sample drawn for entry \<open>(i, j)\<close>.
\<close>

definition dropout :: "mat \<Rightarrow> real \<Rightarrow> (nat \<Rightarrow> nat \<Rightarrow> real) \<Rightarrow> mat" where
  "dropout x keep_prob u =
     (if keep_prob = 1 then x
      else x\<lparr> rws := map (\<lambda>i. map (\<lambda>j. rws x ! i ! j / keep_prob * of_int \<lfloor>keep_prob + u i j\<rfloor>)
                                   [0..<length (rws x ! i)])
                          [0..<nrows x] \<rparr>)"

text \<open>
  Adding a rank-1 tensor to a rank-2 tensor, with TensorFlow's broadcasting: the vector is
  added to every row; a dimension of size 1 on either side is stretched; any other
  mismatch is an error.
\<close>

definition add_broadcast :: "mat \<Rightarrow> real list \<Rightarrow> error + mat" where
  "add_broadcast m b =
     (if length b = ncols m then Inr (m\<lparr> rws := map (\<lambda>r. map2 (+) r b) (rws m) \<rparr>)
      else if length b = 1 then Inr (m\<lparr> rws := map (map (\<lambda>v. v + b ! 0)) (rws m) \<rparr>)
      else if ncols m = 1
      then Inr \<lparr> ncols = length b, rws = map (\<lambda>r. map (\<lambda>v. r ! 0 + v) b) (rws m) \<rparr>
      else Inl InvalidArgumentError)"

section \<open>The base layer\<close>

record layer =
  name :: pyval
  vars :: "(string \<times> tensor) list"
  logging :: pyval
  sparse_inputs :: bool

definition allowed_kwargs :: "string set" where
  "allowed_kwargs = {''name'', ''logging''}"

text \<open>
  The loop over \<^verbatim>\<open>kwargs.keys()\<close>: the first key that fails the assertion raises, with
  the message the source builds.
\<close>

fun check_kwargs :: "string list \<Rightarrow> error option" where
  "check_kwargs [] = None"
| "check_kwargs (kwarg # rest) =
     (if kwarg \<in> allowed_kwargs then check_kwargs rest
      else Some (AssertionError (''Invalid keyword argument: '' @ kwarg)))"

text \<open>\<^verbatim>\<open>kwargs.get(key, default)\<close>; the keyword arguments are kept in call order.\<close>

definition kwargs_get :: "(string \<times> pyval) list \<Rightarrow> string \<Rightarrow> pyval \<Rightarrow> pyval" where
  "kwargs_get kwargs key dflt = (case map_of kwargs key of None \<Rightarrow> dflt | Some v \<Rightarrow> v)"

text \<open>
  \<^verbatim>\<open>Layer.__init__\<close>. \<open>cls\<close> is \<^verbatim>\<open>self.__class__.__name__\<close>. The result is the exception
  or the initialised object, together with the name counter after the call.
\<close>

definition Layer_init :: "string \<Rightarrow> (string \<times> pyval) list \<Rightarrow> uids \<Rightarrow> (error + layer) \<times> uids" where
  "Layer_init cls kwargs U =
     (case check_kwargs (map fst kwargs) of
        Some e \<Rightarrow> (Inl e, U)
      | None \<Rightarrow>
          (let name0 = kwargs_get kwargs ''name'' PyNone;
               (name1, U') =
                  (if \<not> truthy name0
                   then (let layer = lower cls; (n, U1) = get_layer_uid layer U
                         in (PyStr (layer @ ''_'' @ str_int n), U1))
                   else (name0, U))
           in (Inr \<lparr> name = name1, vars = [],
                     logging = kwargs_get kwargs ''logging'' (PyBool False),
                     sparse_inputs = False \<rparr>, U')))"

section \<open>Placeholders and initialisers\<close>

text \<open>
  The \<^verbatim>\<open>placeholders\<close> dictionary the constructors read: one optional field per key,
  \<open>None\<close> when the key is absent (a lookup then raises KeyError). The values are the
  ones fed to the placeholders when the graph runs.
\<close>

record placeholders =
  ph_dropout :: "real option"
  ph_support :: "mat option"
  ph_paths :: "int list option"
  ph_index :: "int list option"
  ph_sequences :: "int list option"
  ph_features :: "mat option"
  ph_flow_size :: "real list option"

definition ph_lookup :: "'a option \<Rightarrow> string \<Rightarrow> error + 'a" where
  "ph_lookup field key = (case field of None \<Rightarrow> Inl (KeyError key) | Some v \<Rightarrow> Inr v)"

text \<open>
  Modelled from the spec: \<^verbatim>\<open>glorot\<close> and \<^verbatim>\<open>zeros\<close> of the module \<^verbatim>\<open>inits\<close>, which
  is not among the sources. \<^verbatim>\<open>glorot(shape, name)\<close> returns a tensor of the shape asked
  for (\<open>sample i j\<close> is the value drawn for entry \<open>(i, j)\<close>; the layers depend on the
  shape only), \<^verbatim>\<open>zeros(shape, name)\<close> a tensor of zeros.
\<close>

definition glorot :: "nat \<times> nat \<Rightarrow> (nat \<Rightarrow> nat \<Rightarrow> real) \<Rightarrow> mat" where
  "glorot shape sample =
     \<lparr> ncols = snd shape, rws = map (\<lambda>i. map (\<lambda>j. sample i j) [0..<snd shape]) [0..<fst shape] \<rparr>"

definition zeros :: "nat \<Rightarrow> real list" where
  "zeros n = replicate n 0"

text \<open>\<^verbatim>\<open>self.vars[key]\<close>, and the rank a use of the variable expects.\<close>

definition lookup_var :: "(string \<times> tensor) list \<Rightarrow> string \<Rightarrow> error + tensor" where
  "lookup_var vs key = (case map_of vs key of None \<Rightarrow> Inl (KeyError key) | Some t \<Rightarrow> Inr t)"

definition var_mat :: "(string \<times> tensor) list \<Rightarrow> string \<Rightarrow> error + mat" where
  "var_mat vs key =
     (case lookup_var vs key of
        Inl e \<Rightarrow> Inl e
      | Inr (Mat m) \<Rightarrow> Inr m
      | Inr (Vec _) \<Rightarrow> Inl ValueError)"

definition var_vec :: "(string \<times> tensor) list \<Rightarrow> string \<Rightarrow> error + real list" where
  "var_vec vs key =
     (case lookup_var vs key of
        Inl e \<Rightarrow> Inl e
      | Inr (Vec v) \<Rightarrow> Inr v
      | Inr (Mat _) \<Rightarrow> Inl ValueError)"

section \<open>GraphConvolution\<close>

text \<open>
  The attributes \<^verbatim>\<open>GraphConvolution.__init__\<close> sets, on top of the base layer's.
  \<open>dropout_rate\<close> is \<^verbatim>\<open>self.dropout\<close>: the value fed to \<^verbatim>\<open>placeholders['dropout']\<close>, or 0.
  The attribute \<^verbatim>\<open>self.outs\<close> only keeps a copy of the returned tensor and is read
  nowhere; the histograms of \<^verbatim>\<open>_log_vars\<close> go to TensorFlow's summaries. Neither is
  part of the state modelled here.
\<close>

record graph_convolution = layer +
  dropout_rate :: real
  act :: "mat \<Rightarrow> mat"
  support :: mat
  featureless :: bool
  bias :: bool

definition GraphConvolution_init ::
  "nat \<Rightarrow> nat \<Rightarrow> placeholders \<Rightarrow> real \<Rightarrow> bool \<Rightarrow> (mat \<Rightarrow> mat) \<Rightarrow> bool \<Rightarrow> bool \<Rightarrow>
   (string \<times> pyval) list \<Rightarrow> (nat \<Rightarrow> nat \<Rightarrow> real) \<Rightarrow> uids \<Rightarrow> (error + graph_convolution) \<times> uids" where
  "GraphConvolution_init input_dim output_dim ph dropout_arg sparse_inputs_arg act_arg bias_arg
      featureless_arg kwargs sample U =
     (case Layer_init ''GraphConvolution'' kwargs U of
        (Inl e, U') \<Rightarrow> (Inl e, U')
      | (Inr base, U') \<Rightarrow>
          (case (if dropout_arg \<noteq> 0 then ph_lookup (ph_dropout ph) ''dropout'' else Inr 0) of
             Inl e \<Rightarrow> (Inl e, U')
           | Inr d \<Rightarrow>
               (case ph_lookup (ph_support ph) ''support'' of
                  Inl e \<Rightarrow> (Inl e, U')
                | Inr S \<Rightarrow>
                    (Inr (layer.extend
                            (base\<lparr> sparse_inputs := sparse_inputs_arg,
                                   vars := vars base
                                     @ [(''weights'', Mat (glorot (input_dim, output_dim) sample))]
                                     @ (if bias_arg then [(''bias'', Vec (zeros output_dim))] else []) \<rparr>)
                            (graph_convolution.fields d act_arg S featureless_arg bias_arg)),
                     U'))))"

text \<open>\<^verbatim>\<open>tf.add_n\<close>: the entrywise sum of a non-empty list of tensors of one shape.\<close>

definition add_mat :: "mat \<Rightarrow> mat \<Rightarrow> error + mat" where
  "add_mat a b =
     (if shape_of a \<noteq> shape_of b then Inl InvalidArgumentError
      else Inr (a\<lparr> rws := map2 (map2 (+)) (rws a) (rws b) \<rparr>))"

fun add_n :: "mat list \<Rightarrow> error + mat" where
  "add_n [] = Inl ValueError"
| "add_n [m] = Inr m"
| "add_n (m # ms) = (case add_n ms of Inl e \<Rightarrow> Inl e | Inr s \<Rightarrow> add_mat m s)"

text \<open>
  \<^verbatim>\<open>GraphConvolution._call\<close>. The input is a dense tensor: the layer applies the dense
  \<^verbatim>\<open>tf.nn.dropout\<close> and the dense \<^verbatim>\<open>dot\<close> to it. \<open>u\<close> is the noise of the dropout.
\<close>

definition GraphConvolution_call ::
  "graph_convolution \<Rightarrow> mat \<Rightarrow> (nat \<Rightarrow> nat \<Rightarrow> real) \<Rightarrow> error + mat" where
  "GraphConvolution_call L inputs u =
     (let x = dropout inputs (1 - dropout_rate L) u in
      case (if \<not> featureless L
            then (case var_mat (vars L) ''weights'' of
                    Inl e \<Rightarrow> Inl e
                  | Inr W \<Rightarrow> dot (Dense x) W False)
            else var_mat (vars L) ''weights'') of
        Inl e \<Rightarrow> Inl e
      | Inr pre_sup \<Rightarrow>
          (case dot (Dense (support L)) pre_sup False of
             Inl e \<Rightarrow> Inl e
           | Inr supp \<Rightarrow>
               (case add_n [supp] of
                  Inl e \<Rightarrow> Inl e
                | Inr output \<Rightarrow>
                    (case (if bias L
                           then (case var_vec (vars L) ''bias'' of
                                   Inl e \<Rightarrow> Inl e
                                 | Inr b \<Rightarrow> add_broadcast output b)
                           else Inr output) of
                       Inl e \<Rightarrow> Inl e
                     | Inr output' \<Rightarrow> Inr (act L output')))))"

section \<open>PathEmbedding\<close>

text \<open>
  \<^verbatim>\<open>tf.math.l2_normalize(x)\<close> as the source calls it, with no \<^verbatim>\<open>axis\<close>: the squares are
  summed over all dimensions (\<^verbatim>\<open>reduce_sum(square(x), None, keepdims=True)\<close>), and
  every entry is multiplied by \<^verbatim>\<open>rsqrt(maximum(square_sum, epsilon))\<close>, with the
  default \<^verbatim>\<open>epsilon = 1e-12\<close>. The tensor is float32: a sum of squares above the largest
  float32 value \<open>(2 - 2^-23) * 2^127\<close> overflows to infinity, \<^verbatim>\<open>rsqrt\<close> of it is 0, and
  every entry of the result is 0. Up to that bound the arithmetic is the reals', without
  rounding.
\<close>

definition float32_max :: real where
  "float32_max = (2 ^ 24 - 1) * 2 ^ 104"

definition epsilon :: real where
  "epsilon = 1 / 10 ^ 12"

definition square_sum :: "mat \<Rightarrow> real" where
  "square_sum x = sum_list (map (\<lambda>v. v * v) (concat (rws x)))"

definition l2_normalize :: "mat \<Rightarrow> mat" where
  "l2_normalize x =
     (let x_inv_norm = (if float32_max < square_sum x then 0
                        else 1 / sqrt (max (square_sum x) epsilon))
      in x\<lparr> rws := map (map (\<lambda>v. v * x_inv_norm)) (rws x) \<rparr>)"

text \<open>\<^verbatim>\<open>tf.gather(params, indices)\<close> along axis 0; an index out of range is an error.\<close>

definition gather :: "mat \<Rightarrow> int list \<Rightarrow> error + mat" where
  "gather params indices =
     (if list_all (\<lambda>i. 0 \<le> i \<and> i < int (nrows params)) indices
      then Inr \<lparr> ncols = ncols params, rws = map (\<lambda>i. rws params ! nat i) indices \<rparr>
      else Inl InvalidArgumentError)"

text \<open>\<^verbatim>\<open>tf.stack([a, b], axis=1)\<close> of two vectors, which must have one length.\<close>

definition stack_axis1 :: "int list \<Rightarrow> int list \<Rightarrow> error + (int \<times> int) list" where
  "stack_axis1 a b = (if length a \<noteq> length b then Inl InvalidArgumentError else Inr (zip a b))"

text \<open>
  \<^verbatim>\<open>tf.reduce_max\<close> of an integer vector; of an empty one it is the lowest value of the
  element type (32-bit integers here).
\<close>

definition reduce_max :: "int list \<Rightarrow> int" where
  "reduce_max xs = (if xs = [] then - (2 ^ 31) else Max (set xs))"

definition ones_like :: "int list \<Rightarrow> int list" where
  "ones_like xs = map (\<lambda>_. 1) xs"

text \<open>
  \<^verbatim>\<open>tf.math.segment_sum(data, segment_ids)\<close>: the ids must be sorted and not negative;
  the output has (last id + 1) entries, entry \<open>s\<close> the sum of the data with id \<open>s\<close>
  (0 when there is none).
\<close>

definition segment_sum :: "int list \<Rightarrow> int list \<Rightarrow> error + int list" where
  "segment_sum data segment_ids =
     (if length data \<noteq> length segment_ids \<or> \<not> sorted segment_ids
         \<or> \<not> list_all (\<lambda>s. 0 \<le> s) segment_ids
      then Inl InvalidArgumentError
      else Inr (foldl (\<lambda>out ds. out[nat (snd ds) := out ! nat (snd ds) + fst ds])
                  (replicate (if segment_ids = [] then 0 else nat (last segment_ids) + 1) 0)
                  (zip data segment_ids)))"

text \<open>
  \<^verbatim>\<open>tf.scatter_nd(indices, updates, shape)\<close> for a rank-3 shape and index pairs: a tensor
  of zeros of the shape; update row \<open>i\<close> is added at position \<open>indices[i]\<close> of the first
  two dimensions. A negative dimension, updates of another shape, or an index outside
  the shape is an error.
\<close>

type_synonym tensor3 = "real list list list"

definition scatter_nd ::
  "(int \<times> int) list \<Rightarrow> mat \<Rightarrow> nat \<Rightarrow> int \<Rightarrow> nat \<Rightarrow> error + tensor3" where
  "scatter_nd indices updates n max_len d =
     (if max_len < 0 \<or> length indices \<noteq> nrows updates \<or> ncols updates \<noteq> d
         \<or> \<not> list_all (\<lambda>ix. 0 \<le> fst ix \<and> fst ix < int n \<and> 0 \<le> snd ix \<and> snd ix < max_len) indices
      then Inl InvalidArgumentError
      else Inr (foldl (\<lambda>out iu.
                   (let b = nat (fst (fst iu)); t = nat (snd (fst iu))
                    in out[b := (out ! b)[t := map2 (+) (out ! b ! t) (snd iu)]]))
                  (replicate n (replicate (nat max_len) (replicate d 0)))
                  (zip indices (rws updates))))"

text \<open>
  \<^verbatim>\<open>tf.nn.dynamic_rnn(cell, inputs, initial_state, sequence_length)\<close>, the final state.
  \<open>cell x h\<close> is one step of the cell on one batch row. For batch row \<open>b\<close> the steps run
  over the time axis; at a time not below \<open>sequence_length[b]\<close> the state is copied
  through. The state must have the cell's width, and \<open>sequence_length\<close> one entry per
  batch row: TensorFlow asserts its shape to be [batch_size].
\<close>

fun rnn_row :: "(real list \<Rightarrow> real list \<Rightarrow> real list) \<Rightarrow> int \<Rightarrow> nat \<Rightarrow> real list list \<Rightarrow> real list \<Rightarrow> real list" where
  "rnn_row cell len t [] h = h"
| "rnn_row cell len t (x # xs) h = rnn_row cell len (Suc t) xs (if int t < len then cell x h else h)"

definition dynamic_rnn ::
  "(real list \<Rightarrow> real list \<Rightarrow> real list) \<Rightarrow> nat \<Rightarrow> tensor3 \<Rightarrow> mat \<Rightarrow> int list \<Rightarrow> error + mat" where
  "dynamic_rnn cell units inputs initial_state sequence_length =
     (if ncols initial_state \<noteq> units \<or> nrows initial_state \<noteq> length inputs then Inl ValueError
      else if length sequence_length \<noteq> length inputs then Inl InvalidArgumentError
      else Inr \<lparr> ncols = units,
                 rws = map (\<lambda>b. rnn_row cell (sequence_length ! b) 0 (inputs ! b) (rws initial_state ! b))
                         [0..<length inputs] \<rparr>)"

text \<open>\<^verbatim>\<open>tf.reshape\<close> to a rank-2 shape, from the row-major buffer of the tensor.\<close>

definition reshape :: "real list \<Rightarrow> nat \<times> nat \<Rightarrow> error + mat" where
  "reshape buf shape =
     (if length buf \<noteq> fst shape * snd shape then Inl InvalidArgumentError
      else Inr \<lparr> ncols = snd shape,
                 rws = map (\<lambda>i. take (snd shape) (drop (i * snd shape) buf)) [0..<fst shape] \<rparr>)"

text \<open>
  The attributes \<^verbatim>\<open>PathEmbedding.__init__\<close> sets. \<open>path_update\<close> is the step of the
  \<^verbatim>\<open>GRUCell(path_state_dim)\<close> once built, \<open>path_state_dim\<close> its number of units. The
  monitors \<^verbatim>\<open>ht\<close>, \<^verbatim>\<open>li\<close> and \<^verbatim>\<open>outs\<close> are copies of intermediate values, read nowhere.
\<close>

record path_embedding = layer +
  num_quests :: nat
  num_paths :: nat
  paths :: "int list"
  idx :: "int list"
  seqs :: "int list"
  features :: mat
  flow_size :: mat
  link_state_dim :: nat
  path_state_dim :: nat
  path_update :: "real list \<Rightarrow> real list \<Rightarrow> real list"
  act :: "mat \<Rightarrow> mat"

definition PathEmbedding_init ::
  "nat \<Rightarrow> nat \<Rightarrow> nat \<Rightarrow> nat \<Rightarrow> placeholders \<Rightarrow> (mat \<Rightarrow> mat) \<Rightarrow> (string \<times> pyval) list \<Rightarrow>
   (real list \<Rightarrow> real list \<Rightarrow> real list) \<Rightarrow> uids \<Rightarrow> (error + path_embedding) \<times> uids" where
  "PathEmbedding_init num_quests_arg num_paths_arg link_state_dim_arg path_state_dim_arg ph act_arg
      kwargs cell U =
     (case Layer_init ''PathEmbedding'' kwargs U of
        (Inl e, U') \<Rightarrow> (Inl e, U')
      | (Inr base, U') \<Rightarrow>
          (case ph_lookup (ph_paths ph) ''paths'' of Inl e \<Rightarrow> (Inl e, U') | Inr paths_v \<Rightarrow>
          (case ph_lookup (ph_index ph) ''index'' of Inl e \<Rightarrow> (Inl e, U') | Inr idx_v \<Rightarrow>
          (case ph_lookup (ph_sequences ph) ''sequences'' of Inl e \<Rightarrow> (Inl e, U') | Inr seqs_v \<Rightarrow>
          (case ph_lookup (ph_features ph) ''features'' of Inl e \<Rightarrow> (Inl e, U') | Inr features_v \<Rightarrow>
          (case ph_lookup (ph_flow_size ph) ''flow_size'' of Inl e \<Rightarrow> (Inl e, U') | Inr fs \<Rightarrow>
          (case reshape fs (num_quests_arg * num_paths_arg, 1) of Inl e \<Rightarrow> (Inl e, U') | Inr flow_size_v \<Rightarrow>
             (Inr (layer.extend base
                     (path_embedding.fields num_quests_arg num_paths_arg paths_v idx_v seqs_v
                        features_v flow_size_v link_state_dim_arg path_state_dim_arg cell act_arg)),
              U'))))))))"

text \<open>\<^verbatim>\<open>PathEmbedding._call\<close>.\<close>

definition PathEmbedding_call :: "path_embedding \<Rightarrow> mat \<Rightarrow> error + mat" where
  "PathEmbedding_call L inputs0 =
     (let inputs = l2_normalize inputs0 in
      case gather inputs (paths L) of Inl e \<Rightarrow> Inl e | Inr h_tild \<Rightarrow>
      (case stack_axis1 (idx L) (seqs L) of Inl e \<Rightarrow> Inl e | Inr ids \<Rightarrow>
      (let max_len = reduce_max (seqs L) + 1 in
       case segment_sum (ones_like (idx L)) (idx L) of Inl e \<Rightarrow> Inl e | Inr lens \<Rightarrow>
      (case scatter_nd ids h_tild (num_quests L * num_paths L) max_len (link_state_dim L) of
         Inl e \<Rightarrow> Inl e | Inr link_inputs \<Rightarrow>
      (case dynamic_rnn (path_update L) (path_state_dim L) link_inputs (flow_size L) lens of
         Inl e \<Rightarrow> Inl e | Inr path_state \<Rightarrow>
       reshape (concat (rws path_state)) (num_quests L, num_paths L))))))"

section \<open>Auxiliary definitions for the statements\<close>

text \<open>The counter of a tag: 0 while the tag has no entry in the dictionary.\<close>

definition uid_value :: "uids \<Rightarrow> string \<Rightarrow> int" where
  "uid_value U t = (case U t of None \<Rightarrow> 0 | Some c \<Rightarrow> c)"

text \<open>
  The normalisation the specification describes, for comparison with \<open>l2_normalize\<close>:
  every row divided by its own Euclidean norm.
\<close>

definition spec_rowwise_l2_normalize :: "mat \<Rightarrow> mat" where
  "spec_rowwise_l2_normalize x =
     x\<lparr> rws := map (\<lambda>r. map (\<lambda>v. v / sqrt (sum_list (map (\<lambda>w. w * w) r))) r) (rws x) \<rparr>"

text \<open>
  Concrete layers for the examples: link and path states of width 1, and in place of the
  GRU a cell that adds the sum of its input row to every entry of the state.
\<close>

definition sum_cell :: "real list \<Rightarrow> real list \<Rightarrow> real list" where
  "sum_cell x h = map (\<lambda>v. v + sum_list x) h"

definition example_layer ::
  "nat \<Rightarrow> nat \<Rightarrow> int list \<Rightarrow> int list \<Rightarrow> int list \<Rightarrow> real list list \<Rightarrow> path_embedding" where
  "example_layer nq np ps ix sq fs =
     \<lparr> name = PyStr ''pathembedding_1'', vars = [], logging = PyBool False, sparse_inputs = False,
       num_quests = nq, num_paths = np, paths = ps, idx = ix, seqs = sq,
       features = \<lparr> ncols = 1, rws = [] \<rparr>, flow_size = \<lparr> ncols = 1, rws = fs \<rparr>,
       link_state_dim = 1, path_state_dim = 1, path_update = sum_cell, act = (\<lambda>m. m) \<rparr>"

text \<open>
  \<^verbatim>\<open>tf.nn.relu\<close>, the default activation of the layers, and a concrete GraphConvolution
  with two nodes, one output feature, weights [[1], [-2]] and bias [1/2].
\<close>

definition relu :: "mat \<Rightarrow> mat" where
  "relu m = m\<lparr> rws := map (map (\<lambda>v. max v 0)) (rws m) \<rparr>"

definition example_gcn :: "bool \<Rightarrow> bool \<Rightarrow> real \<Rightarrow> graph_convolution" where
  "example_gcn fl bs rate =
     \<lparr> name = PyStr ''graphconvolution_1'',
       vars = [(''weights'', Mat \<lparr> ncols = 1, rws = [[1], [- 2]] \<rparr>), (''bias'', Vec [1 / 2])],
       logging = PyBool False, sparse_inputs = False,
       dropout_rate = rate, act = relu,
       support = \<lparr> ncols = 2, rws = [[1, 0], [1, 1]] \<rparr>,
       featureless = fl, bias = bs \<rparr>"

text \<open>
  The dense tensor of a SparseTensor, for comparing the two variants of \<open>dot\<close>
  (\<^verbatim>\<open>densify\<close> of the specification, \<^verbatim>\<open>tf.sparse.to_dense\<close>): the indices must lie in
  the dense shape and come in strictly increasing row-major order, so that none occurs
  twice; the result is zero except at the stored indices, where it holds the stored
  value.
\<close>

definition index_less :: "int \<times> int \<Rightarrow> int \<times> int \<Rightarrow> bool" where
  "index_less a b = (fst a < fst b \<or> (fst a = fst b \<and> snd a < snd b))"

definition dense_write :: "real list list \<Rightarrow> (int \<times> int) \<times> real \<Rightarrow> real list list" where
  "dense_write d e =
     (let i = nat (fst (fst e)); k = nat (snd (fst e)) in d[i := (d ! i)[k := snd e]])"

definition densify :: "sparse \<Rightarrow> error + mat" where
  "densify sp =
     (if \<not> list_all (\<lambda>e. in_shape (dense_shape sp) (fst e)) (entries sp)
         \<or> \<not> sorted_wrt index_less (map fst (entries sp))
      then Inl InvalidArgumentError
      else Inr \<lparr> ncols = snd (dense_shape sp),
                 rws = foldl dense_write
                         (replicate (fst (dense_shape sp)) (replicate (snd (dense_shape sp)) 0))
                         (entries sp) \<rparr>)"

section \<open>Properties of the name counter and of construction\<close>

lemma get_layer_uid_fst: "fst (get_layer_uid t U) = uid_value U t + 1"
  by (simp add: get_layer_uid_def uid_value_def split: option.splits)

lemma get_layer_uid_snd:
  "uid_value (snd (get_layer_uid t U)) s = uid_value U s + (if s = t then 1 else 0)"
  by (simp add: get_layer_uid_def uid_value_def split: option.splits)

lemma get_layer_uids_value:
  "uid_value (snd (get_layer_uids ts U)) s = uid_value U s + int (count_list ts s)"
proof (induction ts arbitrary: U)
  case Nil
  then show ?case by simp
next
  case (Cons t ts)
  have "snd (get_layer_uids (t # ts) U) = snd (get_layer_uids ts (snd (get_layer_uid t U)))"
    by (simp add: split_beta Let_def)
  then show ?case
    using Cons.IH [of "snd (get_layer_uid t U)"] by (simp add: get_layer_uid_snd)
qed

lemma check_kwargs_find:
  "check_kwargs ks =
     map_option (\<lambda>k. AssertionError (''Invalid keyword argument: '' @ k))
       (find (\<lambda>k. k \<notin> allowed_kwargs) ks)"
  by (induction ks) simp_all

lemma find_offending:
  assumes "k \<in> set ks" and "k \<notin> allowed_kwargs"
  shows "\<exists>k'. find (\<lambda>k. k \<notin> allowed_kwargs) ks = Some k' \<and> k' \<in> set ks \<and> k' \<notin> allowed_kwargs"
proof (cases "find (\<lambda>k. k \<notin> allowed_kwargs) ks")
  case None
  with assms show ?thesis by (auto simp: find_None_iff)
next
  case (Some k')
  then show ?thesis by (auto simp: find_Some_iff)
qed

lemma lower_GraphConvolution: "lower ''GraphConvolution'' = ''graphconvolution''"
  by code_simp

lemma str_int_3: "str_int 3 = ''3''"
  by code_simp

text \<open>
  C9. A keyword argument that reaches \<^verbatim>\<open>Layer.__init__\<close> and is neither \<^verbatim>\<open>name\<close> nor
  \<^verbatim>\<open>logging\<close> makes the construction of the base layer, of a GraphConvolution and of a
  PathEmbedding raise at once: the result is the AssertionError whose message ends with
  the first such key, no object is returned, and the name counter is left as it was.
\<close>

theorem unknown_kwarg_rejected:
  assumes "k \<in> set (map fst kwargs)" and "k \<notin> allowed_kwargs"
  shows "\<exists>k'. k' \<in> set (map fst kwargs) \<and> k' \<notin> allowed_kwargs
           \<and> find (\<lambda>k. k \<notin> allowed_kwargs) (map fst kwargs) = Some k'
           \<and> Layer_init cls kwargs U
               = (Inl (AssertionError (''Invalid keyword argument: '' @ k')), U)
           \<and> GraphConvolution_init input_dim output_dim ph dropout_arg sparse_arg act_arg bias_arg
                 featureless_arg kwargs sample U
               = (Inl (AssertionError (''Invalid keyword argument: '' @ k')), U)
           \<and> PathEmbedding_init nq np lsd psd ph act_arg kwargs cell U
               = (Inl (AssertionError (''Invalid keyword argument: '' @ k')), U)"
proof -
  from find_offending [OF assms] obtain k' where
    k': "find (\<lambda>k. k \<notin> allowed_kwargs) (map fst kwargs) = Some k'"
        "k' \<in> set (map fst kwargs)" "k' \<notin> allowed_kwargs"
    by blast
  have base: "Layer_init c kwargs U
      = (Inl (AssertionError (''Invalid keyword argument: '' @ k')), U)" for c
    by (simp add: Layer_init_def check_kwargs_find k')
  have gc: "GraphConvolution_init input_dim output_dim ph dropout_arg sparse_arg act_arg bias_arg
                 featureless_arg kwargs sample U
               = (Inl (AssertionError (''Invalid keyword argument: '' @ k')), U)"
    by (simp add: GraphConvolution_init_def base)
  have pe: "PathEmbedding_init nq np lsd psd ph act_arg kwargs cell U
               = (Inl (AssertionError (''Invalid keyword argument: '' @ k')), U)"
    by (simp add: PathEmbedding_init_def base)
  from k' base gc pe show ?thesis by blast
qed

theorem unknown_kwarg_rejected_witness:
  "Layer_init ''Layer'' [(''name'', PyStr ''gc''), (''units'', PyInt 3)] LAYER_UIDS_initial
     = (Inl (AssertionError ''Invalid keyword argument: units''), LAYER_UIDS_initial)"
proof -
  have a: "''units'' \<in> set (map fst [(''name'', PyStr ''gc''), (''units'', PyInt 3)])"
    by simp
  have b: "''units'' \<notin> allowed_kwargs"
    by (simp add: allowed_kwargs_def)
  have c: "find (\<lambda>k. k \<notin> allowed_kwargs) (map fst [(''name'', PyStr ''gc''), (''units'', PyInt 3)])
             = Some ''units''"
    by (simp add: allowed_kwargs_def)
  from unknown_kwarg_rejected [OF a b, of "''Layer''" LAYER_UIDS_initial] c
  show ?thesis by auto
qed

text \<open>
  C10. Starting from the empty dictionary, after any run of calls \<open>ts\<close> (one tag per
  call, other tags interleaved at will) the next call for tag \<open>t\<close> returns one more than
  the number of earlier calls for \<open>t\<close>: the values a tag receives are 1, 2, 3, ... in
  call order. A layer constructed with accepted keyword arguments and no (or an empty)
  name is named by the lowercased class name, an underscore and the decimal value the
  counter returns for that lowercased name.
\<close>

theorem layer_uid_sequence_and_default_name:
  "fst (get_layer_uid t (snd (get_layer_uids ts LAYER_UIDS_initial))) = 1 + int (count_list ts t)
   \<and> (check_kwargs (map fst kwargs) = None \<longrightarrow> \<not> truthy (kwargs_get kwargs ''name'' PyNone) \<longrightarrow>
        (\<exists>L. Layer_init cls kwargs U = (Inr L, snd (get_layer_uid (lower cls) U))
           \<and> name L = PyStr (lower cls @ ''_'' @ str_int (fst (get_layer_uid (lower cls) U)))))"
proof -
  have "uid_value LAYER_UIDS_initial t = 0"
    by (simp add: uid_value_def LAYER_UIDS_initial_def)
  then have a: "fst (get_layer_uid t (snd (get_layer_uids ts LAYER_UIDS_initial)))
      = 1 + int (count_list ts t)"
    by (simp add: get_layer_uid_fst get_layer_uids_value)
  have b: "check_kwargs (map fst kwargs) = None \<longrightarrow> \<not> truthy (kwargs_get kwargs ''name'' PyNone) \<longrightarrow>
        (\<exists>L. Layer_init cls kwargs U = (Inr L, snd (get_layer_uid (lower cls) U))
           \<and> name L = PyStr (lower cls @ ''_'' @ str_int (fst (get_layer_uid (lower cls) U))))"
    by (simp add: Layer_init_def Let_def split_beta)
  from a b show ?thesis by blast
qed

theorem layer_uid_sequence_and_default_name_witness:
  "\<exists>L U'. Layer_init ''GraphConvolution'' [(''logging'', PyBool True)]
            (snd (get_layer_uids [''graphconvolution'', ''dense'', ''graphconvolution''] LAYER_UIDS_initial))
          = (Inr L, U')
        \<and> name L = PyStr ''graphconvolution_3''"
proof -
  let ?ts = "[''graphconvolution'', ''dense'', ''graphconvolution'']"
  let ?kw = "[(''logging'', PyBool True)]"
  let ?U = "snd (get_layer_uids ?ts LAYER_UIDS_initial)"
  note inst = layer_uid_sequence_and_default_name
    [of "''graphconvolution''" ?ts ?kw "''GraphConvolution''" ?U]
  have c: "check_kwargs (map fst ?kw) = None"
    by (simp add: allowed_kwargs_def)
  have n: "\<not> truthy (kwargs_get ?kw ''name'' PyNone)"
    by (simp add: kwargs_get_def)
  have v: "fst (get_layer_uid ''graphconvolution'' ?U) = 3"
    using inst by simp
  from inst c n obtain L where
    L: "Layer_init ''GraphConvolution'' ?kw ?U = (Inr L, snd (get_layer_uid (lower ''GraphConvolution'') ?U))"
       "name L = PyStr (lower ''GraphConvolution'' @ ''_''
                   @ str_int (fst (get_layer_uid (lower ''GraphConvolution'') ?U)))"
    by blast
  from L(2) have "name L = PyStr ''graphconvolution_3''"
    unfolding lower_GraphConvolution v str_int_3 by simp
  with L(1) show ?thesis by blast
qed

section \<open>Properties of PathEmbedding\<close>

lemma sum_list_bump:
  fixes out :: "int list"
  shows "i < length out \<Longrightarrow> sum_list (out[i := out ! i + d]) = sum_list out + d"
proof (induction out arbitrary: i)
  case Nil
  then show ?case by simp
next
  case (Cons a out)
  then show ?case by (cases i) simp_all
qed

lemma seg_fold:
  assumes "\<forall>s\<in>set ids. 0 \<le> s \<and> nat s < length out"
  shows "length (foldl (\<lambda>out ds. out[nat (snd ds) := out ! nat (snd ds) + fst ds]) out (zip (ones_like ids) ids)) = length out
    \<and> (\<forall>p<length out. foldl (\<lambda>out ds. out[nat (snd ds) := out ! nat (snd ds) + fst ds]) out (zip (ones_like ids) ids) ! p
          = out ! p + int (count_list ids (int p)))
    \<and> sum_list (foldl (\<lambda>out ds. out[nat (snd ds) := out ! nat (snd ds) + fst ds]) out (zip (ones_like ids) ids))
          = sum_list out + int (length ids)"
  using assms
proof (induction ids arbitrary: out)
  case Nil
  then show ?case by (simp add: ones_like_def)
next
  case (Cons s ids)
  let ?out' = "out[nat s := out ! nat s + 1]"
  from Cons.prems have s: "0 \<le> s" "nat s < length out" by simp_all
  from Cons.prems have pre: "\<forall>s\<in>set ids. 0 \<le> s \<and> nat s < length ?out'" by simp
  from Cons.IH [OF pre] s show ?case
    by (auto simp add: ones_like_def nth_list_update sum_list_bump)
qed

lemma sorted_le_last:
  fixes xs :: "int list"
  shows "sorted xs \<Longrightarrow> x \<in> set xs \<Longrightarrow> x \<le> last xs"
  by (induction xs) auto

lemma sorted_last_Max:
  fixes xs :: "int list"
  assumes "sorted xs" "xs \<noteq> []"
  shows "last xs = Max (set xs)"
proof -
  have "Max (set xs) = last xs"
    using assms by (intro Max_eqI) (auto simp: sorted_le_last)
  then show ?thesis by simp
qed

lemma segment_sum_lens:
  assumes "segment_sum (ones_like ix) ix = Inr lens"
  shows "sorted ix" and "\<forall>s\<in>set ix. 0 \<le> s"
    and "length lens = (if ix = [] then 0 else nat (Max (set ix)) + 1)"
    and "\<forall>p<length lens. lens ! p = int (count_list ix (int p))"
    and "sum_list lens = int (length ix)"
proof -
  let ?n = "if ix = [] then 0 else nat (last ix) + 1"
  let ?out = "replicate ?n (0::int)"
  from assms have ok: "sorted ix" "list_all (\<lambda>s. 0 \<le> s) ix"
    and lens: "lens = foldl (\<lambda>out ds. out[nat (snd ds) := out ! nat (snd ds) + fst ds]) ?out (zip (ones_like ix) ix)"
    by (auto simp: segment_sum_def split: if_splits)
  show "sorted ix" by fact
  from ok(2) show nn: "\<forall>s\<in>set ix. 0 \<le> s" by (simp add: list_all_iff)
  have pre: "\<forall>s\<in>set ix. 0 \<le> s \<and> nat s < length ?out"
  proof
    fix s assume s: "s \<in> set ix"
    then have "ix \<noteq> []" by auto
    moreover from s ok(1) have "s \<le> last ix" by (rule sorted_le_last [rotated])
    moreover from s nn have "0 \<le> s" by blast
    ultimately show "0 \<le> s \<and> nat s < length ?out" by simp
  qed
  note f0 = seg_fold [OF pre, folded lens]
  from f0 have f: "length lens = length ?out"
     "\<forall>p<length ?out. lens ! p = ?out ! p + int (count_list ix (int p))"
     "sum_list lens = sum_list ?out + int (length ix)"
    by blast+
  from f(1) ok(1) show "length lens = (if ix = [] then 0 else nat (Max (set ix)) + 1)"
    by (simp add: sorted_last_Max)
  from f(1) f(2) show "\<forall>p<length lens. lens ! p = int (count_list ix (int p))"
    by simp
  from f(3) show "sum_list lens = int (length ix)" by (simp add: sum_list_replicate)
qed

lemma foldl_update_length:
  "length (foldl (\<lambda>out iu. out[f iu := g out iu]) out xs) = length out"
  by (induction xs arbitrary: out) simp_all

lemma scatter_nd_length:
  assumes "scatter_nd indices updates n max_len d = Inr t"
  shows "length t = n"
proof -
  from assms have "t = foldl (\<lambda>out iu. out[nat (fst (fst iu)) :=
        (out ! nat (fst (fst iu)))[nat (snd (fst iu)) := map2 (+) (out ! nat (fst (fst iu)) ! nat (snd (fst iu))) (snd iu)]])
       (replicate n (replicate (nat max_len) (replicate d 0))) (zip indices (rws updates))"
    by (simp add: scatter_nd_def Let_def split: if_splits)
  then show ?thesis by (simp add: foldl_update_length)
qed

lemma call_needs_full_lens:
  assumes "segment_sum (ones_like (idx L)) (idx L) = Inr lens"
    and "length lens \<noteq> num_quests L * num_paths L"
  shows "\<exists>e. PathEmbedding_call L inputs = Inl e"
proof (cases "PathEmbedding_call L inputs")
  case (Inl e)
  then show ?thesis by blast
next
  case (Inr out)
  then obtain h ids t st where
    t: "scatter_nd ids h (num_quests L * num_paths L) (reduce_max (seqs L) + 1) (link_state_dim L) = Inr t"
    and st: "dynamic_rnn (path_update L) (path_state_dim L) t (flow_size L) lens = Inr st"
    using assms(1) by (auto simp: PathEmbedding_call_def Let_def split: sum.splits)
  from st have "length lens = length t"
    by (auto simp: dynamic_rnn_def split: if_splits)
  with scatter_nd_length [OF t] assms(2) show ?thesis by simp
qed

lemmas eval_simps = eval_nat_numeral upt_rec nth_Cons'

lemmas call_defs = PathEmbedding_call_def l2_normalize_def square_sum_def epsilon_def
     float32_max_def gather_def
     stack_axis1_def reduce_max_def segment_sum_def ones_like_def scatter_nd_def dynamic_rnn_def
     reshape_def Let_def example_layer_def sum_cell_def

lemma sqrt_25: "sqrt 25 = 5"
proof -
  have "sqrt 25 = sqrt (5 * 5)" by simp
  also have "\<dots> = 5" using real_sqrt_abs2 [of 5] by simp
  finally show ?thesis .
qed

lemma sqrt_9: "sqrt 9 = 3"
proof -
  have "sqrt 9 = sqrt (3 * 3)" by simp
  also have "\<dots> = 3" using real_sqrt_abs2 [of 3] by simp
  finally show ?thesis .
qed

lemma sqrt_16: "sqrt 16 = 4"
proof -
  have "sqrt 16 = sqrt (4 * 4)" by simp
  also have "\<dots> = 4" using real_sqrt_abs2 [of 4] by simp
  finally show ?thesis .
qed



text \<open>
  C6. Whenever \<open>segment_sum\<close> returns \<open>lens\<close> for the layer's \<open>idx\<close>, the length of
  \<open>lens\<close> is the largest path id in \<open>idx\<close> plus one (0 for an empty \<open>idx\<close>), whatever
  \<open>num_quests * num_paths\<close> is. When that is less than \<open>num_quests * num_paths\<close>, the
  forward pass ends in an error instead of states; and a path whose entry of \<open>lens\<close> is
  0 always has a path of larger id with at least one step.
\<close>

theorem lens_length_is_last_id_plus_one:
  assumes "segment_sum (ones_like (idx L)) (idx L) = Inr lens"
  shows "length lens = (if idx L = [] then 0 else nat (Max (set (idx L))) + 1)
    \<and> (length lens < num_quests L * num_paths L \<longrightarrow> (\<exists>e. PathEmbedding_call L inputs = Inl e))
    \<and> (\<forall>p<length lens. lens ! p = 0 \<longrightarrow> (\<exists>q<length lens. p < q \<and> 0 < lens ! q))"
proof -
  note f = segment_sum_lens [OF assms]
  have a: "length lens < num_quests L * num_paths L \<longrightarrow> (\<exists>e. PathEmbedding_call L inputs = Inl e)"
    using call_needs_full_lens [OF assms] by auto
  have b: "\<exists>q<length lens. p < q \<and> 0 < lens ! q" if p: "p < length lens" "lens ! p = 0" for p
  proof -
    from p(1) f(3) have ne: "idx L \<noteq> []" by auto
    let ?m = "Max (set (idx L))"
    from ne have mem: "?m \<in> set (idx L)" by simp
    with f(2) have m0: "0 \<le> ?m" by blast
    let ?q = "nat ?m"
    from f(3) ne have q: "?q < length lens" "length lens = ?q + 1" by simp_all
    from f(4) q(1) have "lens ! ?q = int (count_list (idx L) (int ?q))" by blast
    moreover from mem have "count_list (idx L) ?m \<noteq> 0" by (simp add: count_list_0_iff)
    ultimately have pos: "0 < lens ! ?q" using m0 by simp
    with p(2) have "p \<noteq> ?q" by auto
    with p(1) q(2) have "p < ?q" by simp
    with q(1) pos show ?thesis by blast
  qed
  from f(3) a b show ?thesis by blast
qed
theorem lens_length_is_last_id_plus_one_witness:
  "segment_sum (ones_like [0]) [0] = Inr [1]
   \<and> (\<exists>e. PathEmbedding_call (example_layer 1 2 [0] [0] [0] [[5], [7]]) \<lparr> ncols = 1, rws = [[1]] \<rparr> = Inl e)"
proof -
  let ?L = "example_layer 1 2 [0] [0] [0] [[5], [7]]"
  have i: "idx ?L = [0]" "num_quests ?L * num_paths ?L = 2"
    by (simp_all add: example_layer_def)
  have e: "segment_sum (ones_like (idx ?L)) (idx ?L) = Inr [1]"
    by (simp add: example_layer_def segment_sum_def ones_like_def)
  from lens_length_is_last_id_plus_one [OF e, of "\<lparr> ncols = 1, rws = [[1]] \<rparr>"] e i show ?thesis
    by simp
qed

text \<open>
  C2, as stated, fails: with one quest, three paths and a single step owned by path 1,
  path 0 owns no step and \<open>lens\<close> is [0, 1], yet the forward pass returns no state:
  \<open>lens\<close> has two entries for a batch of three paths, and \<open>dynamic_rnn\<close> rejects it.
\<close>

theorem empty_trailing_path_counterexample:
  "count_list (idx (example_layer 1 3 [0] [1] [0] [[5], [7], [9]])) 0 = 0
   \<and> segment_sum (ones_like (idx (example_layer 1 3 [0] [1] [0] [[5], [7], [9]])))
         (idx (example_layer 1 3 [0] [1] [0] [[5], [7], [9]])) = Inr [0, 1]
   \<and> PathEmbedding_call (example_layer 1 3 [0] [1] [0] [[5], [7], [9]]) \<lparr> ncols = 1, rws = [[1]] \<rparr>
       = Inl InvalidArgumentError"
  by (simp add: call_defs eval_simps)

lemma rnn_row_done: "len \<le> int t \<Longrightarrow> rnn_row cell len t xs h = h"
  by (induction xs arbitrary: t h) simp_all

lemma rnn_row_length:
  "\<forall>x h. length (cell x h) = length h \<Longrightarrow> length (rnn_row cell len t xs h) = length h"
  by (induction xs arbitrary: t h) simp_all

lemma concat_singletons: "\<forall>r\<in>set rs. length r = Suc 0 \<Longrightarrow> concat rs = map (\<lambda>r. r ! 0) rs"
proof (induction rs)
  case Nil
  then show ?case by simp
next
  case (Cons r rs)
  then have "length r = Suc 0" by simp
  then obtain a where "r = [a]" by (cases r) auto
  with Cons show ?case by simp
qed

lemma reshape_nth:
  assumes "reshape buf (r, c) = Inr out" and "p < r * c"
  shows "rws out ! (p div c) ! (p mod c) = buf ! p"
proof -
  from assms(1) have len: "length buf = r * c"
    and out: "rws out = map (\<lambda>i. take c (drop (i * c) buf)) [0..<r]"
    by (auto simp: reshape_def split: if_splits)
  from assms(2) have c: "0 < c" by (cases c) auto
  from assms(2) c have d: "p div c < r"
    by (simp add: less_mult_imp_div_less)
  from c have m: "p mod c < c" by simp
  have "rws out ! (p div c) = take c (drop (p div c * c) buf)"
    using d by (simp add: out)
  moreover have "p div c * c \<le> length buf"
  proof -
    have "p div c * c \<le> p" by simp
    with assms(2) len show ?thesis by linarith
  qed
  ultimately have "rws out ! (p div c) ! (p mod c) = buf ! (p div c * c + p mod c)"
    using m by simp
  then show ?thesis by simp
qed

text \<open>
  C2, amended. Whenever the forward pass returns (which needs \<open>lens\<close> to have
  \<open>num_quests * num_paths\<close> entries, so the path of the highest id owns a step), the
  cell keeps the width of the state and \<open>flow_size\<close> is the rectangular tensor the
  constructor builds, every path \<open>p\<close> that owns no step has as its entry of the result
  its initial state \<open>flow_size[p]\<close>.
\<close>

theorem empty_path_keeps_initial_state:
  assumes call: "PathEmbedding_call L inputs = Inr out"
    and wf: "wf_mat (flow_size L)"
    and cell: "\<forall>x h. length (path_update L x h) = length h"
    and p: "p < num_quests L * num_paths L"
    and empty: "int p \<notin> set (idx L)"
  shows "rws out ! (p div num_paths L) ! (p mod num_paths L) = rws (flow_size L) ! p ! 0"
proof -
  let ?N = "num_quests L * num_paths L"
  from call obtain h ids lens t st where
    lens: "segment_sum (ones_like (idx L)) (idx L) = Inr lens"
    and t: "scatter_nd ids h ?N (reduce_max (seqs L) + 1) (link_state_dim L) = Inr t"
    and st: "dynamic_rnn (path_update L) (path_state_dim L) t (flow_size L) lens = Inr st"
    and out: "reshape (concat (rws st)) (num_quests L, num_paths L) = Inr out"
    by (auto simp: PathEmbedding_call_def Let_def split: sum.splits)
  have tN: "length t = ?N" by (rule scatter_nd_length [OF t])
  from st tN have dims: "ncols (flow_size L) = path_state_dim L" "nrows (flow_size L) = ?N"
      "length lens = ?N"
    and rows: "rws st = map (\<lambda>b. rnn_row (path_update L) (lens ! b) 0 (t ! b) (rws (flow_size L) ! b)) [0..<?N]"
    by (auto simp: dynamic_rnn_def split: if_splits)
  have row_len: "length (rws st ! b) = path_state_dim L" if "b < ?N" for b
  proof -
    from that dims(2) have "rws (flow_size L) ! b \<in> set (rws (flow_size L))" by simp
    with wf dims(1) have "length (rws (flow_size L) ! b) = path_state_dim L"
      by (simp add: wf_mat_def list_all_iff)
    with that show ?thesis by (simp add: rows rnn_row_length [OF cell])
  qed
  have st_len: "length (rws st) = ?N" by (simp add: rows)
  have all_len: "\<forall>r\<in>set (rws st). length r = path_state_dim L"
    using row_len st_len by (metis in_set_conv_nth)
  have "length (concat (rws st)) = ?N * path_state_dim L"
    using all_len st_len by (simp add: length_concat sum_list_triv cong: map_cong)
  moreover from out have "length (concat (rws st)) = ?N"
    by (auto simp: reshape_def split: if_splits)
  ultimately have "?N * path_state_dim L = ?N" by (rule trans [OF sym])
  moreover from p have "0 < ?N" by (cases "?N") simp_all
  ultimately have units: "path_state_dim L = Suc 0" by simp
  from all_len units have flat: "concat (rws st) = map (\<lambda>r. r ! 0) (rws st)"
    by (simp add: concat_singletons)
  from lens p dims(3) have "lens ! p = int (count_list (idx L) (int p))"
    using segment_sum_lens(4) [OF lens] by simp
  with empty have "lens ! p = 0" by simp
  then have "rws st ! p = rws (flow_size L) ! p"
    using p by (simp add: rows rnn_row_done)
  then have "concat (rws st) ! p = rws (flow_size L) ! p ! 0"
    using p st_len by (simp add: flat)
  with reshape_nth [OF out p] show ?thesis by simp
qed

theorem empty_path_keeps_initial_state_witness:
  "PathEmbedding_call (example_layer 1 3 [0, 1] [0, 2] [0, 0] [[5], [7], [9]]) \<lparr> ncols = 1, rws = [[1], [0]] \<rparr>
     = Inr \<lparr> ncols = 3, rws = [[6, 7, 9]] \<rparr>
   \<and> rws \<lparr> ncols = 3, rws = [[6, 7, 9]] \<rparr> ! (1 div 3) ! (1 mod 3) = (7::real)"
proof -
  let ?L = "example_layer 1 3 [0, 1] [0, 2] [0, 0] [[5], [7], [9]]"
  let ?X = "\<lparr> ncols = 1, rws = [[1], [0]] \<rparr>"
  have call: "PathEmbedding_call ?L ?X = Inr \<lparr> ncols = 3, rws = [[6, 7, 9]] \<rparr>"
    by (simp add: call_defs eval_simps)
  have wf: "wf_mat (flow_size ?L)" by (simp add: example_layer_def wf_mat_def)
  have cell: "\<forall>x h. length (path_update ?L x h) = length h"
    by (simp add: example_layer_def sum_cell_def)
  have p: "1 < num_quests ?L * num_paths ?L" by (simp add: example_layer_def)
  have empty: "int 1 \<notin> set (idx ?L)" by (simp add: example_layer_def)
  from empty_path_keeps_initial_state [OF call wf cell p empty]
  have "rws \<lparr> ncols = 3, rws = [[6, 7, 9]] \<rparr> ! (1 div 3) ! (1 mod 3) = (7::real)"
    by (simp add: example_layer_def)
  with call show ?thesis by blast
qed
text \<open>
  C1, as stated, fails: on the tensor with rows [3] and [4] the forward pass's
  normalisation gives [3/5] and [4/5], every entry divided by the norm 5 of the whole
  tensor, where dividing each row by its own norm gives [1] and [1].
\<close>

theorem l2_normalize_not_rowwise_counterexample:
  "l2_normalize \<lparr> ncols = 1, rws = [[3], [4]] \<rparr> = \<lparr> ncols = 1, rws = [[3 / 5], [4 / 5]] \<rparr>
   \<and> spec_rowwise_l2_normalize \<lparr> ncols = 1, rws = [[3], [4]] \<rparr> = \<lparr> ncols = 1, rws = [[1], [1]] \<rparr>
   \<and> l2_normalize \<lparr> ncols = 1, rws = [[3], [4]] \<rparr> \<noteq> spec_rowwise_l2_normalize \<lparr> ncols = 1, rws = [[3], [4]] \<rparr>"
  by (simp add: l2_normalize_def spec_rowwise_l2_normalize_def square_sum_def epsilon_def
      float32_max_def sqrt_25 sqrt_9 sqrt_16)

lemma square_sum_scaled:
  assumes "rws y = map (map (\<lambda>v. v * c)) (rws x)"
  shows "square_sum y = c * c * square_sum x"
proof -
  have "sum_list (map (\<lambda>v. v * v) (map (\<lambda>v. v * c) xs)) = c * c * sum_list (map (\<lambda>v::real. v * v) xs)" for xs
    by (induction xs) (simp_all add: algebra_simps)
  then show ?thesis
    unfolding square_sum_def assms by (simp add: map_concat [symmetric] del: map_map)
qed

lemma l2_normalize_unit:
  assumes "epsilon \<le> square_sum x" and "square_sum x \<le> float32_max"
  shows "square_sum (l2_normalize x) = 1"
proof -
  have pos: "0 < square_sum x" using assms(1) by (simp add: epsilon_def)
  have m: "max (square_sum x) epsilon = square_sum x" using assms(1) by simp
  have n: "rws (l2_normalize x) = map (map (\<lambda>v. v * (1 / sqrt (square_sum x)))) (rws x)"
    using assms(2) by (simp add: l2_normalize_def Let_def m)
  have "square_sum (l2_normalize x) = (1 / sqrt (square_sum x)) * (1 / sqrt (square_sum x)) * square_sum x"
    by (rule square_sum_scaled [OF n])
  also have "\<dots> = 1" using pos by (simp add: field_simps)
  finally show ?thesis .
qed

lemma l2_normalize_idem:
  assumes "epsilon \<le> square_sum x" and "square_sum x \<le> float32_max"
  shows "l2_normalize (l2_normalize x) = l2_normalize x"
proof -
  have "epsilon \<le> 1" by (simp add: epsilon_def)
  then have "max (square_sum (l2_normalize x)) epsilon = 1"
    by (simp add: l2_normalize_unit [OF assms])
  moreover have "\<not> float32_max < square_sum (l2_normalize x)"
    by (simp add: l2_normalize_unit [OF assms] float32_max_def)
  ultimately have "l2_normalize (l2_normalize x) = (l2_normalize x)\<lparr> rws := map (map (\<lambda>v. v * 1)) (rws (l2_normalize x)) \<rparr>"
    unfolding l2_normalize_def [of "l2_normalize x"] Let_def by simp
  then show ?thesis by (simp add: map_idI)
qed

text \<open>
  C1, amended. The forward pass first normalises \<open>link_embeddings\<close> as one vector:
  when the sum of the squares of all its entries is at least \<open>epsilon\<close> and at most the
  largest float32 value, every entry is divided by the Euclidean norm of the whole
  tensor, so that the squares of the result add up to 1. The forward pass returns
  \<open>out\<close> exactly when the indices of \<open>paths\<close> are rows of the input and scattering
  those rows, each divided by the norm of the whole tensor, then running the cell and
  reshaping gives \<open>out\<close>: gather, scatter and recurrence see the normalised tensor
  only. When the sum of the squares exceeds the largest float32 value, every entry of
  the normalised tensor is 0.
\<close>

theorem l2_normalize_whole_tensor:
  assumes "epsilon \<le> square_sum x" and "square_sum x \<le> float32_max"
  shows "l2_normalize x = x\<lparr> rws := map (map (\<lambda>v. v / sqrt (square_sum x))) (rws x) \<rparr>
    \<and> square_sum (l2_normalize x) = 1
    \<and> (PathEmbedding_call L x = Inr out \<longleftrightarrow>
         list_all (\<lambda>i. 0 \<le> i \<and> i < int (nrows x)) (paths L)
       \<and> (\<exists>ids lens link_inputs path_state.
            stack_axis1 (idx L) (seqs L) = Inr ids
          \<and> segment_sum (ones_like (idx L)) (idx L) = Inr lens
          \<and> scatter_nd ids
                \<lparr> ncols = ncols x,
                  rws = map (\<lambda>i. map (\<lambda>v. v / sqrt (square_sum x)) (rws x ! nat i)) (paths L) \<rparr>
                (num_quests L * num_paths L) (reduce_max (seqs L) + 1) (link_state_dim L)
              = Inr link_inputs
          \<and> dynamic_rnn (path_update L) (path_state_dim L) link_inputs (flow_size L) lens
              = Inr path_state
          \<and> reshape (concat (rws path_state)) (num_quests L, num_paths L) = Inr out))
    \<and> PathEmbedding_call L x = PathEmbedding_call L (l2_normalize x)
    \<and> (float32_max < square_sum y \<longrightarrow> l2_normalize y = y\<lparr> rws := map (map (\<lambda>v. 0)) (rws y) \<rparr>)"
proof -
  have trace: "PathEmbedding_call L X = Inr out \<longleftrightarrow>
     (\<exists>h ids lens li st.
        gather (l2_normalize X) (paths L) = Inr h
      \<and> stack_axis1 (idx L) (seqs L) = Inr ids
      \<and> segment_sum (ones_like (idx L)) (idx L) = Inr lens
      \<and> scatter_nd ids h (num_quests L * num_paths L) (reduce_max (seqs L) + 1) (link_state_dim L) = Inr li
      \<and> dynamic_rnn (path_update L) (path_state_dim L) li (flow_size L) lens = Inr st
      \<and> reshape (concat (rws st)) (num_quests L, num_paths L) = Inr out)" for X out
    by (auto simp: PathEmbedding_call_def Let_def split: sum.splits)
  have m: "max (square_sum x) epsilon = square_sum x" using assms(1) by simp
  have o: "float32_max < square_sum y \<longrightarrow> l2_normalize y = y\<lparr> rws := map (map (\<lambda>v. 0)) (rws y) \<rparr>"
    by (simp add: l2_normalize_def)
  have a: "l2_normalize x = x\<lparr> rws := map (map (\<lambda>v. v / sqrt (square_sum x))) (rws x) \<rparr>"
    using assms(2) by (simp add: l2_normalize_def Let_def m)
  have g: "gather (l2_normalize x) (paths L) = Inr h \<longleftrightarrow>
      list_all (\<lambda>i. 0 \<le> i \<and> i < int (nrows x)) (paths L)
      \<and> h = \<lparr> ncols = ncols x,
               rws = map (\<lambda>i. map (\<lambda>v. v / sqrt (square_sum x)) (rws x ! nat i)) (paths L) \<rparr>" for h
  proof (cases "list_all (\<lambda>i. 0 \<le> i \<and> i < int (nrows x)) (paths L)")
    case True
    have "map (map (\<lambda>v. v / sqrt (square_sum x))) (rws x) ! nat i
        = map (\<lambda>v. v / sqrt (square_sum x)) (rws x ! nat i)" if "i \<in> set (paths L)" for i
    proof -
      from True that have "nat i < nrows x" by (auto simp: list_all_iff)
      then show ?thesis by simp
    qed
    then have eq: "map (\<lambda>i. map (map (\<lambda>v. v / sqrt (square_sum x))) (rws x) ! nat i) (paths L)
        = map (\<lambda>i. map (\<lambda>v. v / sqrt (square_sum x)) (rws x ! nat i)) (paths L)"
      by simp
    from True show ?thesis unfolding a by (auto simp: gather_def eq)
  next
    case False
    then show ?thesis unfolding a by (simp add: gather_def)
  qed
  have t: "PathEmbedding_call L x = Inr out \<longleftrightarrow>
         list_all (\<lambda>i. 0 \<le> i \<and> i < int (nrows x)) (paths L)
       \<and> (\<exists>ids lens link_inputs path_state.
            stack_axis1 (idx L) (seqs L) = Inr ids
          \<and> segment_sum (ones_like (idx L)) (idx L) = Inr lens
          \<and> scatter_nd ids
                \<lparr> ncols = ncols x,
                  rws = map (\<lambda>i. map (\<lambda>v. v / sqrt (square_sum x)) (rws x ! nat i)) (paths L) \<rparr>
                (num_quests L * num_paths L) (reduce_max (seqs L) + 1) (link_state_dim L)
              = Inr link_inputs
          \<and> dynamic_rnn (path_update L) (path_state_dim L) link_inputs (flow_size L) lens
              = Inr path_state
          \<and> reshape (concat (rws path_state)) (num_quests L, num_paths L) = Inr out)"
    unfolding trace g by blast
  have c: "PathEmbedding_call L x = PathEmbedding_call L (l2_normalize x)"
    unfolding PathEmbedding_call_def l2_normalize_idem [OF assms] ..
  from a l2_normalize_unit [OF assms] t c o show ?thesis by blast
qed

theorem l2_normalize_whole_tensor_witness:
  "epsilon \<le> square_sum \<lparr> ncols = 1, rws = [[3], [4]] \<rparr>
   \<and> square_sum \<lparr> ncols = 1, rws = [[3], [4]] \<rparr> \<le> float32_max
   \<and> l2_normalize \<lparr> ncols = 1, rws = [[3], [4]] \<rparr> = \<lparr> ncols = 1, rws = [[3 / 5], [4 / 5]] \<rparr>
   \<and> square_sum (l2_normalize \<lparr> ncols = 1, rws = [[3], [4]] \<rparr>) = 1
   \<and> PathEmbedding_call (example_layer 1 2 [0, 1] [0, 1] [0, 0] [[5], [7]]) \<lparr> ncols = 1, rws = [[3], [4]] \<rparr>
       = Inr \<lparr> ncols = 2, rws = [[28 / 5, 39 / 5]] \<rparr>
   \<and> l2_normalize \<lparr> ncols = 1, rws = [[10 ^ 20]] \<rparr> = \<lparr> ncols = 1, rws = [[0]] \<rparr>"
proof -
  let ?X = "\<lparr> ncols = 1, rws = [[3], [4]] \<rparr>"
  let ?L = "example_layer 1 2 [0, 1] [0, 1] [0, 0] [[5], [7]]"
  let ?out = "\<lparr> ncols = 2, rws = [[28 / 5, 39 / 5]] \<rparr>"
  have h1: "epsilon \<le> square_sum ?X"
    by (simp add: epsilon_def square_sum_def)
  have h2: "square_sum ?X \<le> float32_max"
    by (simp add: float32_max_def square_sum_def)
  have s: "square_sum ?X = 25"
    by (simp add: square_sum_def)
  let ?Y = "\<lparr> ncols = 1, rws = [[10 ^ 20]] \<rparr>"
  note inst = l2_normalize_whole_tensor [OF h1 h2, of ?L ?out ?Y, unfolded s sqrt_25]
  have big: "float32_max < square_sum ?Y"
    by (simp add: float32_max_def square_sum_def)
  with inst have z: "l2_normalize ?Y = \<lparr> ncols = 1, rws = [[0]] \<rparr>"
    by simp
  from inst have n: "l2_normalize ?X = ?X\<lparr> rws := map (map (\<lambda>v. v / 5)) (rws ?X) \<rparr>"
    and u: "square_sum (l2_normalize ?X) = 1"
    by blast+
  from n have n': "l2_normalize ?X = \<lparr> ncols = 1, rws = [[3 / 5], [4 / 5]] \<rparr>"
    by simp
  have r: "list_all (\<lambda>i. 0 \<le> i \<and> i < int (nrows ?X)) (paths ?L)"
    by (simp add: example_layer_def)
  have st: "stack_axis1 (idx ?L) (seqs ?L) = Inr [(0, 0), (1, 0)]"
    by (simp add: example_layer_def stack_axis1_def)
  have sg: "segment_sum (ones_like (idx ?L)) (idx ?L) = Inr [1, 1]"
    by (simp add: example_layer_def segment_sum_def ones_like_def eval_simps)
  have sc: "scatter_nd [(0, 0), (1, 0)]
              \<lparr> ncols = ncols ?X, rws = map (\<lambda>i. map (\<lambda>v. v / 5) (rws ?X ! nat i)) (paths ?L) \<rparr>
              (num_quests ?L * num_paths ?L) (reduce_max (seqs ?L) + 1) (link_state_dim ?L)
            = Inr [[[3 / 5]], [[4 / 5]]]"
    by (simp add: example_layer_def scatter_nd_def reduce_max_def Let_def eval_simps)
  have dr: "dynamic_rnn (path_update ?L) (path_state_dim ?L) [[[3 / 5]], [[4 / 5]]] (flow_size ?L) [1, 1]
            = Inr \<lparr> ncols = 1, rws = [[28 / 5], [39 / 5]] \<rparr>"
    by (simp add: example_layer_def dynamic_rnn_def sum_cell_def eval_simps)
  have rs: "reshape (concat (rws \<lparr> ncols = 1, rws = [[28 / 5], [39 / 5]] \<rparr>)) (num_quests ?L, num_paths ?L)
            = Inr ?out"
    by (simp add: example_layer_def reshape_def eval_simps)
  from inst r st sg sc dr rs have call: "PathEmbedding_call ?L ?X = Inr ?out"
    by blast
  have direct: "PathEmbedding_call ?L ?X = Inr ?out"
    by (simp add: call_defs eval_simps sqrt_25)
  from h1 h2 n' u z call direct show ?thesis by blast
qed

section \<open>Properties of sparse dropout\<close>

lemma filter_zip_all:
  "length ys = length xs \<Longrightarrow> \<forall>y\<in>set ys. P y \<Longrightarrow> map fst (filter (\<lambda>p. P (snd p)) (zip xs ys)) = xs"
proof (induction xs arbitrary: ys)
  case Nil
  then show ?case by simp
next
  case (Cons x xs)
  then obtain y ys' where "ys = y # ys'" by (cases ys) auto
  with Cons show ?case by simp
qed

lemma retained_by_mask:
  "map fst (filter snd (zip es (map f u))) = map fst (filter (\<lambda>eu. f (snd eu)) (zip es u))"
proof (induction es arbitrary: u)
  case Nil
  then show ?case by simp
next
  case (Cons e es)
  then show ?case by (cases u) simp_all
qed

lemma sparse_dropout_result:
  assumes "length u = length (entries x)"
  shows "sparse_dropout x keep_prob u
           = Inr (x\<lparr> entries := map (\<lambda>e. (fst e, snd e * (1 / keep_prob)))
                   (map fst (filter (\<lambda>eu. \<lfloor>keep_prob + snd eu\<rfloor> \<noteq> 0) (zip (entries x) u))) \<rparr>)"
proof -
  have "map fst (filter snd (zip (entries x) (map (\<lambda>r. \<lfloor>r\<rfloor> \<noteq> 0) (map (\<lambda>v. keep_prob + v) u))))
      = map fst (filter (\<lambda>eu. \<lfloor>keep_prob + snd eu\<rfloor> \<noteq> 0) (zip (entries x) u))"
    using retained_by_mask [of "entries x" "\<lambda>v. \<lfloor>keep_prob + v\<rfloor> \<noteq> 0" u]
    by (simp add: comp_def)
  with assms show ?thesis
    by (simp add: sparse_dropout_def sparse_retain_def sparse_scale_def Let_def)
qed

text \<open>
  C7. With one noise sample per stored entry and \<open>keep_prob\<close> not zero,
  \<open>sparse_dropout\<close> returns the entries whose mask \<open>floor(keep_prob + u)\<close> is not
  zero, each with its index unchanged and its value multiplied by \<open>1 / keep_prob\<close>.
  With \<open>keep_prob = 1\<close> and samples in [0, 1) every entry is retained and the factor is
  1: the output is \<open>x\<close>.
\<close>

theorem sparse_dropout_rescales_and_keeps_all:
  assumes "length u = length (entries x)" and "keep_prob \<noteq> 0"
  shows "sparse_dropout x keep_prob u
           = Inr (x\<lparr> entries := map (\<lambda>e. (fst e, snd e * (1 / keep_prob)))
                   (map fst (filter (\<lambda>eu. \<lfloor>keep_prob + snd eu\<rfloor> \<noteq> 0) (zip (entries x) u))) \<rparr>)
    \<and> ((\<forall>v\<in>set u. 0 \<le> v \<and> v < 1) \<longrightarrow> sparse_dropout x 1 u = Inr x)"
proof -
  have b: "sparse_dropout x 1 u = Inr x" if u: "\<forall>v\<in>set u. 0 \<le> v \<and> v < 1"
  proof -
    have "\<forall>v\<in>set u. \<lfloor>1 + v\<rfloor> \<noteq> 0"
    proof
      fix v assume "v \<in> set u"
      with u have "0 \<le> v" "v < 1" by auto
      then have "\<lfloor>1 + v\<rfloor> = 1" by linarith
      then show "\<lfloor>1 + v\<rfloor> \<noteq> 0" by simp
    qed
    then have "map fst (filter (\<lambda>eu. \<lfloor>1 + snd eu\<rfloor> \<noteq> 0) (zip (entries x) u)) = entries x"
      using filter_zip_all [OF assms(1), of "\<lambda>v. \<lfloor>1 + v\<rfloor> \<noteq> 0"] by simp
    then show ?thesis
      by (simp add: sparse_dropout_result [OF assms(1)])
  qed
  from sparse_dropout_result [OF assms(1)] b show ?thesis by blast
qed

theorem sparse_dropout_rescales_and_keeps_all_witness:
  "sparse_dropout \<lparr> entries = [((0, 1), 2), ((1, 0), 6)], dense_shape = (2, 2) \<rparr> (1 / 2) [1 / 4, 3 / 4]
     = Inr \<lparr> entries = [((1, 0), 12)], dense_shape = (2, 2) \<rparr>
   \<and> sparse_dropout \<lparr> entries = [((0, 1), 2), ((1, 0), 6)], dense_shape = (2, 2) \<rparr> 1 [1 / 4, 3 / 4]
     = Inr \<lparr> entries = [((0, 1), 2), ((1, 0), 6)], dense_shape = (2, 2) \<rparr>"
proof -
  let ?x = "\<lparr> entries = [((0, 1), 2), ((1, 0), 6)], dense_shape = (2, 2) \<rparr> :: sparse"
  let ?u = "[1 / 4, 3 / 4] :: real list"
  have l: "length ?u = length (entries ?x)" by simp
  have k: "(1 / 2 :: real) \<noteq> 0" by simp
  have r: "\<forall>v\<in>set ?u. 0 \<le> v \<and> v < 1" by simp
  have f: "\<lfloor>1 / 2 + 1 / 4 :: real\<rfloor> = 0" "\<lfloor>1 / 2 + 3 / 4 :: real\<rfloor> = 1" by linarith+
  from sparse_dropout_rescales_and_keeps_all [OF l k] r f show ?thesis by simp
qed

section \<open>Properties of GraphConvolution\<close>

lemma var_mat_Some: "map_of vs key = Some (Mat W) \<Longrightarrow> var_mat vs key = Inr W"
  by (simp add: var_mat_def lookup_var_def)

lemma var_vec_Some: "map_of vs key = Some (Vec b) \<Longrightarrow> var_vec vs key = Inr b"
  by (simp add: var_vec_def lookup_var_def)

lemma row_times_length: "length (row_times r b) = ncols b"
  by (simp add: row_times_def)

text \<open>
  C3. A featureless GraphConvolution with weights \<open>W\<close>, a support \<open>S\<close> whose columns
  match the rows of \<open>W\<close> and, when it has a bias, a bias vector with one entry per
  column of \<open>W\<close>, returns the activation of \<open>S \<cdot> W\<close> (row \<open>r\<close> of \<open>S\<close> gives
  \<open>row_times r W\<close>), with the bias added to every row when there is one. The result is
  the same for every input \<open>X\<close> and every dropout noise.
\<close>

theorem featureless_output_ignores_input:
  assumes "featureless L"
    and "map_of (vars L) ''weights'' = Some (Mat W)"
    and "ncols (support L) = nrows W"
    and "bias L \<longrightarrow> map_of (vars L) ''bias'' = Some (Vec b) \<and> length b = ncols W"
  shows "GraphConvolution_call L X u
           = Inr (graph_convolution.act L
                \<lparr> ncols = ncols W,
                  rws = map (\<lambda>r. if bias L then map2 (+) (row_times r W) b else row_times r W)
                          (rws (support L)) \<rparr>)
    \<and> GraphConvolution_call L X' u' = GraphConvolution_call L X u"
proof -
  have call: "GraphConvolution_call L Y v
           = Inr (graph_convolution.act L
                \<lparr> ncols = ncols W,
                  rws = map (\<lambda>r. if bias L then map2 (+) (row_times r W) b else row_times r W)
                          (rws (support L)) \<rparr>)" for Y v
  proof (cases "bias L")
    case True
    with assms(4) have b: "var_vec (vars L) ''bias'' = Inr b" "length b = ncols W"
      by (simp_all add: var_vec_Some)
    show ?thesis
      using assms(1,3) True b
      by (simp add: GraphConvolution_call_def Let_def var_mat_Some [OF assms(2)] dot_def matmul_def
          add_broadcast_def comp_def)
  next
    case False
    then show ?thesis
      using assms(1,3)
      by (simp add: GraphConvolution_call_def Let_def var_mat_Some [OF assms(2)] dot_def matmul_def)
  qed
  then show ?thesis by simp
qed

lemma matmul_shape: "matmul a b = Inr c \<Longrightarrow> shape_of c = (nrows a, ncols b)"
  by (auto simp: matmul_def shape_of_def split: if_splits)

lemma add_broadcast_shape:
  "add_broadcast m b = Inr c \<Longrightarrow> length b = ncols m \<Longrightarrow> shape_of c = shape_of m"
  by (auto simp: add_broadcast_def shape_of_def split: if_splits)

text \<open>
  C5. When the weights have shape [input_dim, output_dim], the bias (if any) has
  output_dim entries and the activation keeps the shape of its argument, every output
  the forward pass returns has shape [rows of the support, output_dim]. The output is
  determined by the input, the dropout noise, the variables, the support and the
  layer's dropout rate, activation and flags: a layer that agrees on these (whatever
  its name or logging) returns the same output.
\<close>

theorem graph_convolution_output_shape:
  assumes call: "GraphConvolution_call L X u = Inr out"
    and W: "map_of (vars L) ''weights'' = Some (Mat W)" "shape_of W = (input_dim, output_dim)"
    and b: "bias L \<longrightarrow> (\<exists>b. map_of (vars L) ''bias'' = Some (Vec b) \<and> length b = output_dim)"
    and act: "\<forall>m. shape_of (graph_convolution.act L m) = shape_of m"
  shows "shape_of out = (nrows (support L), output_dim)
    \<and> (\<forall>L'. vars L' = vars L \<and> support L' = support L \<and> dropout_rate L' = dropout_rate L
            \<and> graph_convolution.act L' = graph_convolution.act L
            \<and> featureless L' = featureless L \<and> bias L' = bias L
          \<longrightarrow> GraphConvolution_call L' X u = Inr out)"
proof -
  from W(2) have Wc: "ncols W = output_dim" by (simp add: shape_of_def)
  have Wv: "var_mat (vars L) ''weights'' = Inr W" by (rule var_mat_Some [OF W(1)])
  from call Wv obtain pre supp output' where
    pre: "pre = W \<or> matmul (dropout X (1 - dropout_rate L) u) W = Inr pre"
    and supp: "matmul (support L) pre = Inr supp"
    and o': "(if bias L then (case var_vec (vars L) ''bias'' of Inl e \<Rightarrow> Inl e | Inr b \<Rightarrow> add_broadcast supp b)
             else Inr supp) = Inr output'"
    and out: "out = graph_convolution.act L output'"
    by (auto simp: GraphConvolution_call_def Let_def dot_def split: sum.splits if_splits)
  from pre have "ncols pre = output_dim"
    using Wc matmul_shape [of _ W pre] by (auto simp: shape_of_def)
  with matmul_shape [OF supp] have s: "shape_of supp = (nrows (support L), output_dim)" by simp
  have "shape_of output' = (nrows (support L), output_dim)"
  proof (cases "bias L")
    case True
    with b obtain bv where bv: "map_of (vars L) ''bias'' = Some (Vec bv)" "length bv = output_dim"
      by blast
    from o' True have "add_broadcast supp bv = Inr output'"
      by (simp add: var_vec_Some [OF bv(1)])
    moreover from s bv(2) have "length bv = ncols supp" by (simp add: shape_of_def)
    ultimately show ?thesis using add_broadcast_shape s by metis
  next
    case False
    with o' s show ?thesis by simp
  qed
  with out act have a: "shape_of out = (nrows (support L), output_dim)" by simp
  have d: "GraphConvolution_call L' X u = Inr out"
    if "vars L' = vars L \<and> support L' = support L \<and> dropout_rate L' = dropout_rate L
            \<and> graph_convolution.act L' = graph_convolution.act L
            \<and> featureless L' = featureless L \<and> bias L' = bias L" for L'
  proof -
    from that have e: "vars L' = vars L" "support L' = support L" "dropout_rate L' = dropout_rate L"
      "graph_convolution.act L' = graph_convolution.act L" "featureless L' = featureless L"
      "bias L' = bias L"
      by blast+
    have "GraphConvolution_call L' X u = GraphConvolution_call L X u"
      unfolding GraphConvolution_call_def e ..
    with call show ?thesis by simp
  qed
  from a d show ?thesis by blast
qed
lemma relu_shape: "shape_of (relu m) = shape_of m"
  by (simp add: relu_def shape_of_def)

theorem featureless_output_ignores_input_witness:
  "GraphConvolution_call (example_gcn True True (1 / 2)) \<lparr> ncols = 3, rws = [[1, 2, 3]] \<rparr> (\<lambda>i j. 3 / 4)
     = Inr \<lparr> ncols = 1, rws = [[3 / 2], [0]] \<rparr>
   \<and> GraphConvolution_call (example_gcn True True (1 / 2)) \<lparr> ncols = 0, rws = [] \<rparr> (\<lambda>i j. 0)
     = GraphConvolution_call (example_gcn True True (1 / 2)) \<lparr> ncols = 3, rws = [[1, 2, 3]] \<rparr> (\<lambda>i j. 3 / 4)"
proof -
  let ?L = "example_gcn True True (1 / 2)"
  have f: "featureless ?L" by (simp add: example_gcn_def)
  have w: "map_of (vars ?L) ''weights'' = Some (Mat \<lparr> ncols = 1, rws = [[1], [- 2]] \<rparr>)"
    by (simp add: example_gcn_def)
  have d: "ncols (support ?L) = nrows \<lparr> ncols = 1, rws = [[1], [- 2]] \<rparr>"
    by (simp add: example_gcn_def)
  have b: "bias ?L \<longrightarrow> map_of (vars ?L) ''bias'' = Some (Vec [1 / 2])
      \<and> length [1 / 2 :: real] = ncols \<lparr> ncols = 1, rws = [[1], [- 2]] \<rparr>"
    by (simp add: example_gcn_def)
  from featureless_output_ignores_input [OF f w d b] show ?thesis
    by (simp add: example_gcn_def relu_def row_times_def eval_simps)
qed

theorem graph_convolution_output_shape_witness:
  "GraphConvolution_call (example_gcn False True (1 / 2)) \<lparr> ncols = 2, rws = [[1, 0], [0, 1]] \<rparr> (\<lambda>i j. 3 / 4)
     = Inr \<lparr> ncols = 1, rws = [[5 / 2], [0]] \<rparr>
   \<and> shape_of \<lparr> ncols = 1, rws = [[5 / 2], [0]] \<rparr> = (nrows (support (example_gcn False True (1 / 2))), 1)"
proof -
  let ?L = "example_gcn False True (1 / 2)"
  let ?X = "\<lparr> ncols = 2, rws = [[1, 0], [0, 1]] \<rparr>"
  have fl: "\<lfloor>5 / 4 :: real\<rfloor> = 1" by linarith
  have call: "GraphConvolution_call ?L ?X (\<lambda>i j. 3 / 4) = Inr \<lparr> ncols = 1, rws = [[5 / 2], [0]] \<rparr>"
    by (simp add: GraphConvolution_call_def example_gcn_def relu_def row_times_def dropout_def
        var_mat_def var_vec_def lookup_var_def dot_def matmul_def add_broadcast_def Let_def fl eval_simps)
  have w: "map_of (vars ?L) ''weights'' = Some (Mat \<lparr> ncols = 1, rws = [[1], [- 2]] \<rparr>)"
    by (simp add: example_gcn_def)
  have s: "shape_of \<lparr> ncols = 1, rws = [[1], [- 2]] \<rparr> = (2, 1)"
    by (simp add: shape_of_def)
  have b: "bias ?L \<longrightarrow> (\<exists>b. map_of (vars ?L) ''bias'' = Some (Vec b) \<and> length b = 1)"
    by (simp add: example_gcn_def)
  have a: "\<forall>m. shape_of (graph_convolution.act ?L m) = shape_of m"
    by (simp add: example_gcn_def relu_shape)
  from graph_convolution_output_shape [OF call w s b a] call show ?thesis by blast
qed

section \<open>Sparse and dense matrix products\<close>

lemma sum_list_one_changed:
  fixes g :: "nat \<Rightarrow> real"
  assumes "k < n" and "k < length r" and "r ! k = 0"
  shows "sum_list (map (\<lambda>k'. (r[k := v]) ! k' * g k') [0..<n])
       = sum_list (map (\<lambda>k'. r ! k' * g k') [0..<n]) + v * g k"
proof -
  have "sum_list (map (\<lambda>k'. (r[k := v]) ! k' * g k') [0..<n])
      = (\<Sum>k' = 0..<n. (r[k := v]) ! k' * g k')"
    by (simp add: interv_sum_list_conv_sum_set_nat)
  also have "\<dots> = (\<Sum>k' = 0..<n. r ! k' * g k' + (if k' = k then v * g k else 0))"
    using assms(2,3) by (intro sum.cong) (auto simp: nth_list_update)
  also have "\<dots> = (\<Sum>k' = 0..<n. r ! k' * g k') + v * g k"
    using assms(1) by (simp add: sum.distrib)
  finally show ?thesis by (simp add: interv_sum_list_conv_sum_set_nat)
qed

lemma row_times_write:
  assumes "k < nrows y" and "k < length r" and "r ! k = 0" and "length (rws y ! k) = ncols y"
  shows "row_times (r[k := v]) y = map2 (+) (row_times r y) (map (\<lambda>x. v * x) (rws y ! k))"
proof (rule nth_equalityI)
  show "length (row_times (r[k := v]) y) = length (map2 (+) (row_times r y) (map (\<lambda>x. v * x) (rws y ! k)))"
    using assms(4) by (simp add: row_times_def)
next
  fix j assume "j < length (row_times (r[k := v]) y)"
  then have j: "j < ncols y" by (simp add: row_times_def)
  with assms(4) show "row_times (r[k := v]) y ! j = map2 (+) (row_times r y) (map (\<lambda>x. v * x) (rws y ! k)) ! j"
    by (simp add: row_times_def sum_list_one_changed [OF assms(1,2,3)])
qed

lemma row_times_zero: "row_times (replicate (nrows y) 0) y = replicate (ncols y) 0"
proof (rule nth_equalityI)
  show "length (row_times (replicate (nrows y) 0) y) = length (replicate (ncols y) (0::real))"
    by (simp add: row_times_def)
next
  fix j assume "j < length (row_times (replicate (nrows y) 0) y)"
  then have j: "j < ncols y" by (simp add: row_times_def)
  have "sum_list (map (\<lambda>k. replicate (nrows y) 0 ! k * rws y ! k ! j) [0..<nrows y]) = 0"
    by (simp add: interv_sum_list_conv_sum_set_nat)
  then show "row_times (replicate (nrows y) 0) y ! j = replicate (ncols y) 0 ! j"
    using j by (simp add: row_times_def)
qed

lemma index_less_neq: "index_less a b \<Longrightarrow> a \<noteq> b"
  by (auto simp: index_less_def)

lemma spmm_fold:
  assumes wf: "wf_mat y"
  shows "\<forall>e\<in>set es. in_shape (R, nrows y) (fst e) \<Longrightarrow> sorted_wrt index_less (map fst es)
    \<Longrightarrow> length D = R \<Longrightarrow> \<forall>r\<in>set D. length r = nrows y
    \<Longrightarrow> \<forall>e\<in>set es. D ! nat (fst (fst e)) ! nat (snd (fst e)) = 0
    \<Longrightarrow> foldl (sp_accum y) (map (\<lambda>r. row_times r y) D) es
        = map (\<lambda>r. row_times r y) (foldl dense_write D es)"
proof (induction es arbitrary: D)
  case Nil
  then show ?case by simp
next
  case (Cons e es)
  let ?i = "nat (fst (fst e))" and ?k = "nat (snd (fst e))" and ?v = "snd e"
  let ?D = "D[?i := (D ! ?i)[?k := ?v]]"
  from Cons.prems(1) have rng: "0 \<le> fst (fst e)" "0 \<le> snd (fst e)" "?i < R" "?k < nrows y"
    by (auto simp: in_shape_def)
  from rng(3) Cons.prems(3,4) have row: "length (D ! ?i) = nrows y" by simp
  from Cons.prems(5) have zero: "D ! ?i ! ?k = 0" by simp
  from wf rng(4) have yk: "length (rws y ! ?k) = ncols y"
    by (simp add: wf_mat_def list_all_iff)
  from row rng(4) have kr: "?k < length (D ! ?i)" by simp
  have step: "sp_accum y (map (\<lambda>r. row_times r y) D) e = map (\<lambda>r. row_times r y) ?D"
    using rng(3) Cons.prems(3) row_times_write [OF rng(4) kr zero yk, of ?v]
    by (simp add: sp_accum_def Let_def map_update)
  have dw: "dense_write D e = ?D" by (simp add: dense_write_def Let_def)
  have p1: "\<forall>e\<in>set es. in_shape (R, nrows y) (fst e)" using Cons.prems(1) by simp
  have p2: "sorted_wrt index_less (map fst es)" using Cons.prems(2) by simp
  have p3: "length ?D = R" using Cons.prems(3) by simp
  have p4: "\<forall>r\<in>set ?D. length r = nrows y"
  proof
    fix r assume "r \<in> set ?D"
    then have "r \<in> insert ((D ! ?i)[?k := ?v]) (set D)"
      using set_update_subset_insert by fast
    with Cons.prems(4) row show "length r = nrows y" by auto
  qed
  have p5: "\<forall>e'\<in>set es. ?D ! nat (fst (fst e')) ! nat (snd (fst e')) = 0"
  proof
    fix e' assume e': "e' \<in> set es"
    with Cons.prems(2) have "index_less (fst e) (fst e')" by auto
    then have ne: "fst e \<noteq> fst e'" by (rule index_less_neq)
    from e' Cons.prems(1) have rng': "0 \<le> fst (fst e')" "0 \<le> snd (fst e')"
      by (auto simp: in_shape_def)
    from e' Cons.prems(5) have z: "D ! nat (fst (fst e')) ! nat (snd (fst e')) = 0" by simp
    from ne rng rng' have "nat (fst (fst e')) \<noteq> ?i \<or> nat (snd (fst e')) \<noteq> ?k"
      by (auto simp: prod_eq_iff)
    then show "?D ! nat (fst (fst e')) ! nat (snd (fst e')) = 0"
      using z rng(3) Cons.prems(3) by (auto simp: nth_list_update)
  qed
  have "foldl (sp_accum y) (map (\<lambda>r. row_times r y) D) (e # es)
      = foldl (sp_accum y) (map (\<lambda>r. row_times r y) ?D) es"
    by (simp add: step)
  also have "\<dots> = map (\<lambda>r. row_times r y) (foldl dense_write ?D es)"
    by (rule Cons.IH [OF p1 p2 p3 p4 p5])
  finally show ?case by (simp add: dw)
qed

text \<open>
  C8. For every SparseTensor \<open>x\<close> that has a dense form \<open>d\<close> and every rectangular
  dense \<open>y\<close>, \<open>dot\<close> with \<open>sparse=True\<close> on \<open>x\<close> and \<open>dot\<close> with \<open>sparse=False\<close> on
  \<open>d\<close> return the same result: the same product when the shapes are compatible, the same
  error when they are not. The arithmetic is that of the reals.
\<close>

theorem sparse_dot_agrees_with_dense:
  assumes "densify x = Inr d" and "wf_mat y"
  shows "dot (Sparse x) y True = dot (Dense d) y False"
proof -
  let ?R = "fst (dense_shape x)" and ?C = "snd (dense_shape x)"
  from assms(1) have ok: "list_all (\<lambda>e. in_shape (dense_shape x) (fst e)) (entries x)"
      "sorted_wrt index_less (map fst (entries x))"
    and d: "d = \<lparr> ncols = ?C, rws = foldl dense_write (replicate ?R (replicate ?C 0)) (entries x) \<rparr>"
    by (auto simp: densify_def split: if_splits)
  show ?thesis
  proof (cases "?C = nrows y")
    case False
    then show ?thesis by (simp add: dot_def sparse_tensor_dense_matmul_def matmul_def d)
  next
    case True
    let ?D = "replicate ?R (replicate (nrows y) (0::real))"
    have p1: "\<forall>e\<in>set (entries x). in_shape (?R, nrows y) (fst e)"
      using ok(1) True by (simp add: list_all_iff in_shape_def)
    have z: "map (\<lambda>r. row_times r y) ?D = replicate ?R (replicate (ncols y) 0)"
      by (simp add: row_times_zero)
    have "foldl (sp_accum y) (map (\<lambda>r. row_times r y) ?D) (entries x)
        = map (\<lambda>r. row_times r y) (foldl dense_write ?D (entries x))"
    proof (rule spmm_fold [OF assms(2) p1 ok(2)])
      show "length ?D = ?R" by simp
      show "\<forall>r\<in>set ?D. length r = nrows y" by simp
      show "\<forall>e\<in>set (entries x). ?D ! nat (fst (fst e)) ! nat (snd (fst e)) = 0"
        using p1 by (auto simp: in_shape_def)
    qed
    then have "foldl (sp_accum y) (replicate ?R (replicate (ncols y) 0)) (entries x)
        = map (\<lambda>r. row_times r y) (foldl dense_write ?D (entries x))"
      unfolding z .
    with True ok(1) show ?thesis
      by (simp add: dot_def sparse_tensor_dense_matmul_def matmul_def d)
  qed
qed

theorem sparse_dot_agrees_with_dense_witness:
  "densify \<lparr> entries = [((0, 1), 2), ((1, 0), 3)], dense_shape = (2, 2) \<rparr>
     = Inr \<lparr> ncols = 2, rws = [[0, 2], [3, 0]] \<rparr>
   \<and> dot (Sparse \<lparr> entries = [((0, 1), 2), ((1, 0), 3)], dense_shape = (2, 2) \<rparr>)
         \<lparr> ncols = 2, rws = [[1, 2], [3, 4]] \<rparr> True
     = Inr \<lparr> ncols = 2, rws = [[6, 8], [3, 6]] \<rparr>
   \<and> dot (Dense \<lparr> ncols = 2, rws = [[0, 2], [3, 0]] \<rparr>) \<lparr> ncols = 2, rws = [[1, 2], [3, 4]] \<rparr> False
     = Inr \<lparr> ncols = 2, rws = [[6, 8], [3, 6]] \<rparr>"
proof -
  let ?x = "\<lparr> entries = [((0, 1), 2), ((1, 0), 3)], dense_shape = (2, 2) \<rparr>"
  let ?y = "\<lparr> ncols = 2, rws = [[1, 2], [3, 4]] \<rparr>"
  have d: "densify ?x = Inr \<lparr> ncols = 2, rws = [[0, 2], [3, 0]] \<rparr>"
    by (simp add: densify_def in_shape_def index_less_def dense_write_def Let_def eval_nat_numeral)
  have w: "wf_mat ?y" by (simp add: wf_mat_def)
  have s: "dot (Sparse ?x) ?y True = Inr \<lparr> ncols = 2, rws = [[6, 8], [3, 6]] \<rparr>"
    by (simp add: dot_def sparse_tensor_dense_matmul_def in_shape_def sp_accum_def Let_def
        eval_nat_numeral)
  from sparse_dot_agrees_with_dense [OF d w] s d show ?thesis by simp
qed

end
